theory Spec2Isabelle
  imports Complex_Main "HOL-Library.Char_ord" "HOL-Library.List_Lexorder" "HOL-Library.Multiset"
begin

section \<open>Daily index report: a model of \<open>Niftyopenvalues2.py\<close>\<close>

text \<open>
  The program asks a quote provider for five days of daily bars of four Indian indices,
  keeps the opening price of the most recent bar and the open, high, low and close of the
  bar before it, renders both into one text report and posts the report to a messaging
  endpoint, retrying a failed post.

  Everything the program reads from outside is an argument of the model:
  \<^item> \<open>net\<close>, the quote provider: the answer to the \<open>n\<close>-th request of a run, asked for
    a symbol;
  \<^item> \<open>fromtimestamp\<close>, the conversion
    \<open>datetime.fromtimestamp(ts, tz=Asia/Kolkata).strftime('%Y-%m-%d')\<close>, with \<open>None\<close> where
    the library raises;
  \<^item> \<open>str_float\<close>, the text an f-string prints for a float;
  \<^item> \<open>slot\<close>, the position of a string in the interpreter's hash table, which decides the
    order in which a set of strings is iterated;
  \<^item> \<open>current_time\<close>, the formatted clock reading;
  \<^item> \<open>post\<close>, the outcome of the \<open>k\<close>-th attempt to post a message.

  Prices are exact rationals (the value a float denotes). Strings are byte strings, the
  UTF-8 encoding of the source's literals. Log lines and console output are not modelled.
\<close>

subsection \<open>Python values and dictionaries\<close>

type_synonym price = rat

datatype pyval = PStr string | PFloat price

text \<open>
  A dictionary keeps its keys in insertion order, so it is an association list; an
  assignment \<open>d[k] = v\<close> replaces the value of a key that is there and appends a new key.
\<close>

type_synonym pydict = "(string \<times> pyval) list"

type_synonym record_map = "(string \<times> pydict) list"

fun dict_set :: "('k \<times> 'v) list \<Rightarrow> 'k \<Rightarrow> 'v \<Rightarrow> ('k \<times> 'v) list" where
  "dict_set [] k v = [(k, v)]"
| "dict_set ((k', v') # d) k v = (if k' = k then (k', v) # d else (k', v') # dict_set d k v)"

definition dict_get :: "('k \<times> 'v) list \<Rightarrow> 'k \<Rightarrow> 'v \<Rightarrow> 'v" where
  "dict_get d k dflt = (case map_of d k of None \<Rightarrow> dflt | Some v \<Rightarrow> v)"

definition keys :: "('k \<times> 'v) list \<Rightarrow> 'k list" where
  "keys d = map fst d"

subsection \<open>The provider's answer\<close>

text \<open>
  The JSON the program reads is \<open>chart.result[0].timestamp\<close> and
  \<open>chart.result[0].indicators.quote[0].{open,high,low,close}\<close>. A field is \<open>None\<close> when
  the program's test of it fails for a missing key or a null: \<open>chart_results\<close> is \<open>None\<close>
  when \<open>'chart'\<close> is missing or \<open>result\<close> is null, \<open>result_quote\<close> is \<open>None\<close> when
  \<open>indicators\<close> or \<open>quote\<close> is missing. In all these cases, and when an exception is raised
  while the answer is read, the source goes on to the next candidate with \<open>continue\<close>.
  The arrays that are present hold a float or a null at each position, the timestamps
  are integers.
\<close>

record quote_data =
  quote_high :: "price option list option"
  quote_low :: "price option list option"
  quote_open :: "price option list option"
  quote_close :: "price option list option"

record chart_result =
  result_timestamp :: "int list option"
  result_quote :: "quote_data list option"

record data =
  chart_results :: "chart_result list option"

text \<open>
  \<open>session.get\<close> raises (\<open>Request_error\<close>) or returns a response with a status code; the
  second field of \<open>Response\<close> is what \<open>response.json()\<close> gives, \<open>None\<close> when it raises.
\<close>

datatype http_result = Request_error | Response int "data option"

subsection \<open>Daily bars\<close>

record bar =
  bar_date :: string
  bar_open :: "price option"
  bar_close :: "price option"
  bar_high :: "price option"
  bar_low :: "price option"

text \<open>\<open>quote_data.get(key, [])\<close>.\<close>

definition get_list :: "'a list option \<Rightarrow> 'a list" where
  "get_list v = (case v of None \<Rightarrow> [] | Some xs \<Rightarrow> xs)"

text \<open>
  The loop \<open>for i, timestamp in enumerate(timestamps)\<close>, from position \<open>i\<close> on. The result
  is \<open>None\<close> when the date conversion raises at a position that passed the test.
\<close>

fun build_dates_data ::
  "(int \<Rightarrow> string option) \<Rightarrow> nat \<Rightarrow> int list \<Rightarrow> price option list \<Rightarrow> price option list \<Rightarrow>
   price option list \<Rightarrow> price option list \<Rightarrow> bar list option" where
  "build_dates_data fromtimestamp i [] opens closes highs lows = Some []"
| "build_dates_data fromtimestamp i (timestamp # rest) opens closes highs lows =
     (if i < length closes \<and> closes ! i \<noteq> None \<and> i < length opens \<and> opens ! i \<noteq> None then
        (case fromtimestamp timestamp of
           None \<Rightarrow> None
         | Some date_str \<Rightarrow>
             (case build_dates_data fromtimestamp (i + 1) rest opens closes highs lows of
                None \<Rightarrow> None
              | Some dates_data \<Rightarrow>
                  Some (\<lparr>bar_date = date_str,
                         bar_open = (if i < length opens then opens ! i else None),
                         bar_close = (if i < length closes then closes ! i else None),
                         bar_high = (if i < length highs then highs ! i else None),
                         bar_low = (if i < length lows then lows ! i else None)\<rparr> # dates_data)))
      else build_dates_data fromtimestamp (i + 1) rest opens closes highs lows)"

text \<open>
  \<open>dates_data.sort(key=lambda x: x['date'], reverse=True)\<close>: the list is reversed, sorted
  stably in ascending order of the date string and reversed again.
\<close>

definition sort_by_date_desc :: "bar list \<Rightarrow> bar list" where
  "sort_by_date_desc dates_data = rev (sort_key bar_date (rev dates_data))"

text \<open>
  From the parsed answer to the sorted bars; \<open>None\<close> on each path that leaves the attempt
  with \<open>continue\<close>.
\<close>

definition dates_data_of :: "(int \<Rightarrow> string option) \<Rightarrow> data \<Rightarrow> bar list option" where
  "dates_data_of fromtimestamp d =
     (case chart_results d of
        None \<Rightarrow> None
      | Some [] \<Rightarrow> None
      | Some (result # _) \<Rightarrow>
          (case result_timestamp result of
             None \<Rightarrow> None
           | Some [] \<Rightarrow> None
           | Some (t # ts) \<Rightarrow>
               (case result_quote result of
                  None \<Rightarrow> None
                | Some [] \<Rightarrow> None
                | Some (q # _) \<Rightarrow>
                    map_option sort_by_date_desc
                      (build_dates_data fromtimestamp 0 (t # ts)
                         (get_list (quote_open q)) (get_list (quote_close q))
                         (get_list (quote_high q)) (get_list (quote_low q))))))"

subsection \<open>Records\<close>

text \<open>
  \<open>round(x, ndigits)\<close> on a float chooses the multiple of \<open>1 / 10 ^ ndigits\<close> nearest to
  the exact value of \<open>x\<close>, the even one on a tie.
\<close>

definition round_half_even :: "rat \<Rightarrow> int" where
  "round_half_even x =
     (let f = \<lfloor>x\<rfloor>; d = x - of_int f
      in if d < 1 / 2 then f else if 1 / 2 < d then f + 1 else if even f then f else f + 1)"

definition py_round :: "price \<Rightarrow> nat \<Rightarrow> price" where
  "py_round x ndigits = of_int (round_half_even (x * 10 ^ ndigits)) / 10 ^ ndigits"

text \<open>
  \<open>round(v, 2) if v else 'N/A'\<close>: the test is the truth value of \<open>v\<close>, which is false for
  \<open>None\<close> and for the float zero.
\<close>

definition rounded_or_na :: "price option \<Rightarrow> pyval" where
  "rounded_or_na v =
     (case v of
        None \<Rightarrow> PStr ''N/A''
      | Some x \<Rightarrow> if x = 0 then PStr ''N/A'' else PFloat (py_round x 2))"

definition today_record :: "bar \<Rightarrow> string \<Rightarrow> pydict" where
  "today_record today attempt_symbol =
     [(''date'', PStr (bar_date today)),
      (''open'', rounded_or_na (bar_open today)),
      (''symbol_used'', PStr attempt_symbol)]"

definition yesterday_record :: "bar \<Rightarrow> string \<Rightarrow> pydict" where
  "yesterday_record yesterday attempt_symbol =
     [(''date'', PStr (bar_date yesterday)),
      (''open'', rounded_or_na (bar_open yesterday)),
      (''close'', rounded_or_na (bar_close yesterday)),
      (''high'', rounded_or_na (bar_high yesterday)),
      (''low'', rounded_or_na (bar_low yesterday)),
      (''symbol_used'', PStr attempt_symbol)]"

subsection \<open>Symbol resolution\<close>

text \<open>
  The state of \<open>get_simplified_stock_data\<close>: the two result dictionaries, the symbols
  requested so far (oldest first; its length numbers the next request) and the pauses
  taken, in milliseconds.
\<close>

record fetch_state =
  today_open_data :: record_map
  yesterday_data :: record_map
  requested :: "string list"
  pauses :: "nat list"

definition sleep_ms :: "nat \<Rightarrow> fetch_state \<Rightarrow> fetch_state" where
  "sleep_ms ms st = st\<lparr>pauses := pauses st @ [ms]\<rparr>"

text \<open>
  The loop \<open>for attempt_symbol in symbols_to_try\<close>. A raised exception and the two
  warnings leave the attempt with \<open>continue\<close>, past the pause; a status other than 200 and
  fewer than two bars reach the pause of 0.3 s; two or more bars store both records and
  \<open>break\<close>.
\<close>

fun try_symbols ::
  "(int \<Rightarrow> string option) \<Rightarrow> (nat \<Rightarrow> string \<Rightarrow> http_result) \<Rightarrow> string \<Rightarrow> string list \<Rightarrow>
   fetch_state \<Rightarrow> fetch_state" where
  "try_symbols fromtimestamp net index_name [] st = st"
| "try_symbols fromtimestamp net index_name (attempt_symbol # rest) st =
     (let st1 = st\<lparr>requested := requested st @ [attempt_symbol]\<rparr> in
      case net (length (requested st)) attempt_symbol of
        Request_error \<Rightarrow> try_symbols fromtimestamp net index_name rest st1
      | Response status_code body \<Rightarrow>
          if status_code = 200 then
            (case body of
               None \<Rightarrow> try_symbols fromtimestamp net index_name rest st1
             | Some d \<Rightarrow>
                 (case dates_data_of fromtimestamp d of
                    None \<Rightarrow> try_symbols fromtimestamp net index_name rest st1
                  | Some dates_data \<Rightarrow>
                      if 2 \<le> length dates_data then
                        st1\<lparr>today_open_data :=
                              dict_set (today_open_data st1) index_name
                                (today_record (dates_data ! 0) attempt_symbol),
                            yesterday_data :=
                              dict_set (yesterday_data st1) index_name
                                (yesterday_record (dates_data ! 1) attempt_symbol)\<rparr>
                      else try_symbols fromtimestamp net index_name rest (sleep_ms 300 st1)))
          else try_symbols fromtimestamp net index_name rest (sleep_ms 300 st1))"

text \<open>
  \<open>symbols_to_try = [symbol]\<close>, replaced by the list of alternatives when the index has
  one.
\<close>

definition symbols_to_try :: "(string \<times> string list) list \<Rightarrow> string \<Rightarrow> string \<Rightarrow> string list" where
  "symbols_to_try alternatives index_name symbol =
     (case map_of alternatives index_name of None \<Rightarrow> [symbol] | Some alts \<Rightarrow> alts)"

text \<open>The loop \<open>for index_name, symbol in symbols.items()\<close>, with its pause of 0.5 s.\<close>

fun fetch_loop ::
  "(int \<Rightarrow> string option) \<Rightarrow> (nat \<Rightarrow> string \<Rightarrow> http_result) \<Rightarrow> (string \<times> string list) list \<Rightarrow>
   (string \<times> string) list \<Rightarrow> fetch_state \<Rightarrow> fetch_state" where
  "fetch_loop fromtimestamp net alternatives [] st = st"
| "fetch_loop fromtimestamp net alternatives ((index_name, symbol) # rest) st =
     fetch_loop fromtimestamp net alternatives rest
       (sleep_ms 500
          (try_symbols fromtimestamp net index_name
             (symbols_to_try alternatives index_name symbol) st))"

definition symbols :: "(string \<times> string) list" where
  "symbols =
     [(''NIFTY 50'', ''^NSEI''),
      (''NIFTY BANK'', ''^NSEBANK''),
      (''NIFTY MID SELECT'', ''NIFTY_MID_SELECT.NS''),
      (''NIFTY FINANCIAL SERVICES'', ''NIFTY_FIN_SERVICE.NS'')]"

definition alternative_symbols :: "(string \<times> string list) list" where
  "alternative_symbols =
     [(''NIFTY MID SELECT'',
       [''NIFTY_MID_SELECT.NS'', ''^NSEMDCP50'', ''NIFTY_MIDCAP_100.NS'', ''NIFTYMIDCAP150.NS''])]"

definition initial_state :: fetch_state where
  "initial_state = \<lparr>today_open_data = [], yesterday_data = [], requested = [], pauses = []\<rparr>"

definition run_fetch :: "(int \<Rightarrow> string option) \<Rightarrow> (nat \<Rightarrow> string \<Rightarrow> http_result) \<Rightarrow> fetch_state" where
  "run_fetch fromtimestamp net = fetch_loop fromtimestamp net alternative_symbols symbols initial_state"

definition get_simplified_stock_data ::
  "(int \<Rightarrow> string option) \<Rightarrow> (nat \<Rightarrow> string \<Rightarrow> http_result) \<Rightarrow> record_map \<times> record_map" where
  "get_simplified_stock_data fromtimestamp net =
     (let st = run_fetch fromtimestamp net in (today_open_data st, yesterday_data st))"

text \<open>
  The bars an answer yields: the sorted list the source builds from an answer with status
  200, and no bar from any other answer. A candidate is usable when its answer yields at
  least two bars.
\<close>

definition valid_bars :: "(int \<Rightarrow> string option) \<Rightarrow> http_result \<Rightarrow> bar list" where
  "valid_bars fromtimestamp r =
     (case r of
        Request_error \<Rightarrow> []
      | Response status_code body \<Rightarrow>
          if status_code = 200 then
            (case body of
               None \<Rightarrow> []
             | Some d \<Rightarrow> (case dates_data_of fromtimestamp d of None \<Rightarrow> [] | Some bars \<Rightarrow> bars))
          else [])"

definition usable :: "(int \<Rightarrow> string option) \<Rightarrow> http_result \<Rightarrow> bool" where
  "usable fromtimestamp r = (2 \<le> length (valid_bars fromtimestamp r))"

text \<open>
  A position of the answer's arrays that the source turns into a bar: it has an open and
  a close, neither null.
\<close>

definition has_open_close :: "price option list \<Rightarrow> price option list \<Rightarrow> nat \<Rightarrow> bool" where
  "has_open_close opens closes i =
     (i < length closes \<and> closes ! i \<noteq> None \<and> i < length opens \<and> opens ! i \<noteq> None)"

subsection \<open>Report builder\<close>

text \<open>
  The characters in front of the headings are written byte for byte as the source file
  holds them.
\<close>

definition nl :: string where
  "nl = [CHR 0x0A]"

definition glyph_cross :: string where
  "glyph_cross = [CHR 0xC3, CHR 0xA2, CHR 0xC5, CHR 0x92]"

definition glyph_wave :: string where
  "glyph_wave = [CHR 0xC4, CHR 0x9F, CHR 0xC5, CHR 0xB8, CHR 0xE2, CHR 0x80, CHR 0x98, CHR 0xE2, CHR 0x80, CHR 0xB9]"

definition glyph_chart :: string where
  "glyph_chart = [CHR 0xC4, CHR 0x9F, CHR 0xC5, CHR 0xB8, CHR 0xE2, CHR 0x80, CHR 0x9C, CHR 0xC5, CHR 0xA0]"

definition glyph_clock :: string where
  "glyph_clock = [CHR 0xC4, CHR 0x9F, CHR 0xC5, CHR 0xB8, CHR 0xE2, CHR 0x80, CHR 0xA2, CHR 0xCB, CHR 0x9C]"

definition glyph_sunrise :: string where
  "glyph_sunrise = [CHR 0xC4, CHR 0x9F, CHR 0xC5, CHR 0xB8, CHR 0xC5, CHR 0x92, CHR 0xE2, CHR 0x80, CHR 0xA6]"

definition glyph_up :: string where
  "glyph_up = [CHR 0xC4, CHR 0x9F, CHR 0xC5, CHR 0xB8, CHR 0xE2, CHR 0x80, CHR 0x9C, CHR 0xCB, CHR 0x86]"

definition glyph_down :: string where
  "glyph_down = [CHR 0xC4, CHR 0x9F, CHR 0xC5, CHR 0xB8, CHR 0xE2, CHR 0x80, CHR 0x9C, CHR 0xE2, CHR 0x80, CHR 0xB0]"

definition glyph_warning :: string where
  "glyph_warning = [CHR 0xC3, CHR 0xA2, CHR 0xC5, CHR 0xA1, CHR 0xC2, CHR 0xA0, CHR 0xC3, CHR 0xAF, CHR 0xC2, CHR 0xB8]"

definition glyph_phone :: string where
  "glyph_phone = [CHR 0xC4, CHR 0x9F, CHR 0xC5, CHR 0xB8, CHR 0xE2, CHR 0x80, CHR 0x9C, CHR 0xC2, CHR 0xB1]"

definition rule_line :: string where
  "rule_line = concat (replicate 28 [CHR 0xC3, CHR 0xA2, CHR 0xE2, CHR 0x80, CHR 0x9D])"

text \<open>What an f-string prints for a value.\<close>

definition fstr :: "(price \<Rightarrow> string) \<Rightarrow> pyval \<Rightarrow> string" where
  "fstr str_float v = (case v of PStr s \<Rightarrow> s | PFloat x \<Rightarrow> str_float x)"

text \<open>\<open>sep.join(xs)\<close>.\<close>

fun join :: "string \<Rightarrow> string list \<Rightarrow> string" where
  "join sep [] = []"
| "join sep [x] = x"
| "join sep (x # y # rest) = x @ sep @ join sep (y # rest)"

text \<open>
  \<open>today_date = ""\<close>, replaced by \<open>list(today_open_data.values())[0].get('date', 'Today')\<close>
  when the dictionary is not empty; the same with \<open>'Yesterday'\<close> for the other header.
\<close>

definition header_date :: "(price \<Rightarrow> string) \<Rightarrow> record_map \<Rightarrow> string \<Rightarrow> string" where
  "header_date str_float record_set label =
     (case record_set of
        [] \<Rightarrow> []
      | (index_name, values) # _ \<Rightarrow> fstr str_float (dict_get values ''date'' (PStr label)))"

definition symbol_info :: "(price \<Rightarrow> string) \<Rightarrow> pydict \<Rightarrow> string" where
  "symbol_info str_float values =
     (if ''symbol_used'' \<in> set (keys values)
      then '' ['' @ fstr str_float (dict_get values ''symbol_used'' (PStr ''N/A'')) @ '']''
      else [])"

text \<open>
  The body of each of the two loops over a dictionary: the loop variable is the key and
  \<open>values\<close> the value stored under it, so the model maps over the items.
\<close>

definition today_block :: "(price \<Rightarrow> string) \<Rightarrow> string \<times> pydict \<Rightarrow> string" where
  "today_block str_float item =
     (case item of (index_name, values) \<Rightarrow>
        nl @ glyph_up @ '' *'' @ index_name @ ''*'' @ symbol_info str_float values @ nl @
        ''   Open: '' @ fstr str_float (dict_get values ''open'' (PStr ''N/A'')) @ nl)"

definition yesterday_block :: "(price \<Rightarrow> string) \<Rightarrow> string \<times> pydict \<Rightarrow> string" where
  "yesterday_block str_float item =
     (case item of (index_name, values) \<Rightarrow>
        nl @ glyph_down @ '' *'' @ index_name @ ''*'' @ symbol_info str_float values @ nl @
        ''   Open: '' @ fstr str_float (dict_get values ''open'' (PStr ''N/A'')) @ nl @
        ''   High: '' @ fstr str_float (dict_get values ''high'' (PStr ''N/A'')) @ nl @
        ''   Low: '' @ fstr str_float (dict_get values ''low'' (PStr ''N/A'')) @ nl @
        ''   Close: '' @ fstr str_float (dict_get values ''close'' (PStr ''N/A'')) @ nl)"

definition all_expected_indices :: "string list" where
  "all_expected_indices = [''NIFTY 50'', ''NIFTY BANK'', ''NIFTY MID SELECT'', ''NIFTY FINANCIAL SERVICES'']"

text \<open>
  The set difference \<open>set(xs) - set(ys)\<close>, as the list \<open>', '.join\<close> iterates it. Python
  iterates a set of strings in the order of their places in its hash table, and the hash
  of a string is salted anew in each interpreter process; \<open>slot\<close> stands for that place.
\<close>

definition set_difference :: "(string \<Rightarrow> nat) \<Rightarrow> string list \<Rightarrow> string list \<Rightarrow> string list" where
  "set_difference slot xs ys = sort_key slot (filter (\<lambda>x. x \<notin> set ys) (remdups xs))"

definition missing_today :: "(string \<Rightarrow> nat) \<Rightarrow> record_map \<Rightarrow> string list" where
  "missing_today slot today_map = set_difference slot all_expected_indices (keys today_map)"

definition missing_yesterday :: "(string \<Rightarrow> nat) \<Rightarrow> record_map \<Rightarrow> string list" where
  "missing_yesterday slot yesterday_map = set_difference slot all_expected_indices (keys yesterday_map)"

definition report_head :: "string \<Rightarrow> string" where
  "report_head current_time =
     glyph_wave @ '' Hi Omkar!'' @ nl @ nl @ glyph_chart @ '' *Simplified Stock Report*'' @ nl @
     glyph_clock @ '' Retrieved: '' @ current_time @ nl @ nl"

definition today_section :: "(price \<Rightarrow> string) \<Rightarrow> record_map \<Rightarrow> string" where
  "today_section str_float today_map =
     glyph_sunrise @ '' *Today's Opening ('' @ header_date str_float today_map ''Today'' @ '')*'' @ nl @
     rule_line @ nl @
     concat (map (today_block str_float) today_map)"

definition yesterday_section :: "(price \<Rightarrow> string) \<Rightarrow> record_map \<Rightarrow> string" where
  "yesterday_section str_float yesterday_map =
     nl @ glyph_chart @ '' *Yesterday's OHLC ('' @ header_date str_float yesterday_map ''Yesterday'' @ '')*'' @ nl @
     rule_line @ nl @
     concat (map (yesterday_block str_float) yesterday_map)"

definition data_status :: "(string \<Rightarrow> nat) \<Rightarrow> record_map \<Rightarrow> record_map \<Rightarrow> string" where
  "data_status slot today_map yesterday_map =
     (if missing_today slot today_map \<noteq> [] \<or> missing_yesterday slot yesterday_map \<noteq> [] then
        nl @ glyph_warning @ '' *Data Status*'' @ nl @
        (if missing_today slot today_map \<noteq> []
         then ''Missing today's data: '' @ join '', '' (missing_today slot today_map) @ nl
         else []) @
        (if missing_yesterday slot yesterday_map \<noteq> []
         then ''Missing yesterday's data: '' @ join '', '' (missing_yesterday slot yesterday_map) @ nl
         else [])
      else [])"

definition report_foot :: string where
  "report_foot = nl @ glyph_phone @ '' *Stock Bot by Omkar*''"

text \<open>
  \<open>format_simplified_message(today_open_data, yesterday_data)\<close>; the two dictionaries are
  called \<open>today_map\<close> and \<open>yesterday_map\<close> here.
\<close>

definition format_simplified_message ::
  "(price \<Rightarrow> string) \<Rightarrow> (string \<Rightarrow> nat) \<Rightarrow> string \<Rightarrow> record_map \<Rightarrow> record_map \<Rightarrow> string" where
  "format_simplified_message str_float slot current_time today_map yesterday_map =
     (if today_map = [] \<and> yesterday_map = [] then
        glyph_cross @ '' Unable to fetch stock data at this time.''
      else
        report_head current_time @
        today_section str_float today_map @
        yesterday_section str_float yesterday_map @
        data_status slot today_map yesterday_map @
        report_foot)"

subsection \<open>Notifier\<close>

text \<open>
  An attempt to post gives a response with a status code or raises: a
  \<open>ConnectionError\<close>, a \<open>Timeout\<close>, or any other exception.
\<close>

datatype post_outcome = Status int | ConnectionError | Timeout | Unexpected

record send_result =
  sent :: bool
  attempts :: nat
  sleeps :: "nat list"

text \<open>
  The loop \<open>for attempt in range(max_retries)\<close>, from \<open>attempt\<close> on; \<open>slept\<close> collects the
  arguments of \<open>time.sleep\<close>, in seconds. Inside the loop \<open>attempt < max_retries\<close>, so the
  difference \<open>max_retries - 1\<close> is the source's.
\<close>

function send_loop ::
  "(nat \<Rightarrow> string \<Rightarrow> post_outcome) \<Rightarrow> string \<Rightarrow> nat \<Rightarrow> nat \<Rightarrow> nat list \<Rightarrow> send_result" where
  "send_loop post message max_retries attempt slept =
     (if attempt < max_retries then
        (case post attempt message of
           Status status_code \<Rightarrow>
             if status_code = 200 then
               \<lparr>sent = True, attempts = attempt + 1, sleeps = slept\<rparr>
             else if attempt < max_retries - 1 then
               send_loop post message max_retries (attempt + 1) (slept @ [2])
             else \<lparr>sent = False, attempts = attempt + 1, sleeps = slept\<rparr>
         | ConnectionError \<Rightarrow>
             if attempt < max_retries - 1 then
               send_loop post message max_retries (attempt + 1) (slept @ [2 * (attempt + 1)])
             else \<lparr>sent = False, attempts = attempt + 1, sleeps = slept\<rparr>
         | Timeout \<Rightarrow>
             if attempt < max_retries - 1 then
               send_loop post message max_retries (attempt + 1) (slept @ [2 * (attempt + 1)])
             else \<lparr>sent = False, attempts = attempt + 1, sleeps = slept\<rparr>
         | Unexpected \<Rightarrow>
             if attempt < max_retries - 1 then
               send_loop post message max_retries (attempt + 1) (slept @ [3])
             else \<lparr>sent = False, attempts = attempt + 1, sleeps = slept\<rparr>)
      else \<lparr>sent = False, attempts = attempt, sleeps = slept\<rparr>)"
  by pat_completeness auto
termination
  by (relation "measure (\<lambda>(post, message, max_retries, attempt, slept). max_retries - attempt)") auto

declare send_loop.simps [simp del]

text \<open>\<open>send_telegram_message(message)\<close>, with the default \<open>max_retries=3\<close> every caller uses.\<close>

definition send_telegram_message :: "(nat \<Rightarrow> string \<Rightarrow> post_outcome) \<Rightarrow> string \<Rightarrow> send_result" where
  "send_telegram_message post message = send_loop post message 3 0 []"

text \<open>
  The wait the notifier's description gives for each class of failure, after the attempt
  with the given number (counted from 1).
\<close>

fun backoff :: "post_outcome \<Rightarrow> nat \<Rightarrow> nat" where
  "backoff (Status c) attempt_number = 2"
| "backoff ConnectionError attempt_number = 2 * attempt_number"
| "backoff Timeout attempt_number = 2 * attempt_number"
| "backoff Unexpected attempt_number = 3"

subsection \<open>Library behaviour used in the examples\<close>

text \<open>
  The general results below hold for every date conversion, every float printer and
  every set order. The examples fix them: \<open>ist_date\<close> is the calendar date at UTC+5:30 of
  a timestamp from 1970 up to the year 9999 (the offset of Asia/Kolkata in those years;
  outside it answers \<open>None\<close>), and \<open>str_float_2dp\<close> prints a multiple of 0.01 the way
  \<open>str\<close> prints the float nearest to it: at least one and at most two digits after the
  point.
\<close>

fun digits :: "nat \<Rightarrow> string" where
  "digits n = (if n < 10 then [''0123456789'' ! n] else digits (n div 10) @ [''0123456789'' ! (n mod 10)])"

declare digits.simps [simp del]

definition zero_pad :: "nat \<Rightarrow> nat \<Rightarrow> string" where
  "zero_pad width n = replicate (width - length (digits n)) CHR ''0'' @ digits n"

definition civil_from_days :: "int \<Rightarrow> int \<times> int \<times> int" where
  "civil_from_days days =
     (let z = days + 719468;
          era = z div 146097;
          doe = z mod 146097;
          yoe = (doe - doe div 1460 + doe div 36524 - doe div 146096) div 365;
          doy = doe - (365 * yoe + yoe div 4 - yoe div 100);
          mp = (5 * doy + 2) div 153;
          d = doy - (153 * mp + 2) div 5 + 1;
          m = (if mp < 10 then mp + 3 else mp - 9);
          y = yoe + era * 400 + (if m \<le> 2 then 1 else 0)
      in (y, m, d))"

definition ist_date :: "int \<Rightarrow> string option" where
  "ist_date ts =
     (if 0 \<le> ts \<and> ts + 19800 < 253402300800 then
        (case civil_from_days ((ts + 19800) div 86400) of
           (y, m, d) \<Rightarrow> Some (zero_pad 4 (nat y) @ ''-'' @ zero_pad 2 (nat m) @ ''-'' @ zero_pad 2 (nat d)))
      else None)"

definition str_float_2dp :: "price \<Rightarrow> string" where
  "str_float_2dp x =
     (let n = nat \<lfloor>\<bar>x\<bar> * 100\<rfloor>
      in (if x < 0 then ''-'' else []) @ digits (n div 100) @ ''.'' @
         (if n mod 10 = 0 then [''0123456789'' ! (n div 10 mod 10)]
          else [''0123456789'' ! (n div 10 mod 10), ''0123456789'' ! (n mod 10)]))"

text \<open>Two set orders: by the length of the name, ascending and descending.\<close>

definition slot_short_first :: "string \<Rightarrow> nat" where
  "slot_short_first s = length s"

definition slot_long_first :: "string \<Rightarrow> nat" where
  "slot_long_first s = 100 - length s"

subsection \<open>Sample inputs\<close>

definition quote_response :: "int list \<Rightarrow> price option list \<Rightarrow> price option list \<Rightarrow> price option list \<Rightarrow>
    price option list \<Rightarrow> data" where
  "quote_response ts opens highs lows closes =
     \<lparr>chart_results = Some
        [\<lparr>result_timestamp = Some ts,
          result_quote = Some
            [\<lparr>quote_high = Some highs, quote_low = Some lows,
              quote_open = Some opens, quote_close = Some closes\<rparr>]\<rparr>]\<rparr>"

text \<open>Three sessions, 1 to 3 January 2024 at 09:00 IST, oldest first.\<close>

definition three_bars :: data where
  "three_bars =
     quote_response [1704079800, 1704166200, 1704252600]
       [Some 21727.754, Some 21751.35, Some 21661.1]
       [Some 21834.35, Some 21755.6, Some 21677]
       [Some 21680.85, Some 21555.65, Some 21500.35]
       [Some 21741.9, Some 21665.8, Some 21517.35]"

text \<open>The same sessions with no open for the second.\<close>

definition null_middle_bars :: data where
  "null_middle_bars =
     quote_response [1704079800, 1704166200, 1704252600]
       [Some 21727.75, None, Some 21661.1]
       [Some 21834.35, Some 21755.6, Some 21677]
       [Some 21680.85, Some 21555.65, Some 21500.35]
       [Some 21741.9, Some 21665.8, Some 21517.35]"

text \<open>Two sessions, the later one with an open of 0.0.\<close>

definition zero_open_bars :: data where
  "zero_open_bars =
     quote_response [1704166200, 1704252600]
       [Some 21751.35, Some 0]
       [Some 21755.6, Some 21677]
       [Some 21555.65, Some 21500.35]
       [Some 21665.8, Some 21517.35]"

text \<open>
  A provider whose answer for the primary mid-cap symbol is not JSON, with three bars for
  the first alternative and no connection for any other symbol.
\<close>

definition fallback_net :: "nat \<Rightarrow> string \<Rightarrow> http_result" where
  "fallback_net n s =
     (if s = ''NIFTY_MID_SELECT.NS'' then Response 200 None
      else if s = ''^NSEMDCP50'' then Response 200 (Some three_bars)
      else Request_error)"

text \<open>A provider that knows the bank index only and answers 404 for the rest.\<close>

definition bank_only_net :: "nat \<Rightarrow> string \<Rightarrow> http_result" where
  "bank_only_net n s =
     (if s = ''^NSEBANK'' then Response 200 (Some three_bars) else Response 404 None)"

definition zero_open_net :: "nat \<Rightarrow> string \<Rightarrow> http_result" where
  "zero_open_net n s =
     (if s = ''^NSEI'' then Response 200 (Some zero_open_bars) else Request_error)"

definition mid_select_candidates :: "string list" where
  "mid_select_candidates =
     [''NIFTY_MID_SELECT.NS'', ''^NSEMDCP50'', ''NIFTY_MIDCAP_100.NS'', ''NIFTYMIDCAP150.NS'']"

definition sample_today :: record_map where
  "sample_today =
     [(''NIFTY 50'', [(''date'', PStr ''2024-01-03''), (''open'', PStr ''N/A''), (''symbol_used'', PStr ''^NSEI'')])]"

definition sample_yesterday :: record_map where
  "sample_yesterday =
     [(''NIFTY 50'',
       [(''date'', PStr ''2024-01-02''), (''open'', PStr ''N/A''), (''close'', PStr ''N/A''),
        (''high'', PStr ''N/A''), (''low'', PStr ''N/A''), (''symbol_used'', PStr ''^NSEI'')])]"

text \<open>Records of three of the four indices, without the keys a record may lack.\<close>

definition three_present :: record_map where
  "three_present =
     [(''NIFTY 50'', [(''date'', PStr ''2024-01-03'')]),
      (''NIFTY BANK'', []),
      (''NIFTY MID SELECT'', [])]"

definition sample_time :: string where
  "sample_time = ''03-01-2024 09:07:00 IST''"

definition always_204 :: "nat \<Rightarrow> string \<Rightarrow> post_outcome" where
  "always_204 attempt message = Status 204"

definition always_timeout :: "nat \<Rightarrow> string \<Rightarrow> post_outcome" where
  "always_timeout attempt message = Timeout"

definition two_500_then_200 :: "nat \<Rightarrow> string \<Rightarrow> post_outcome" where
  "two_500_then_200 attempt message = (if attempt < 2 then Status 500 else Status 200)"

section \<open>Properties\<close>

subsection \<open>Dictionaries\<close>

lemma keys_dict_set:
  "keys (dict_set d k v) = (if k \<in> set (keys d) then keys d else keys d @ [k])"
proof (induction d)
  case Nil
  show ?case by (simp add: keys_def)
next
  case (Cons p d)
  obtain k' v' where p: "p = (k', v')" by (cases p)
  show ?case
  proof (cases "k' = k")
    case True
    with p show ?thesis by (simp add: keys_def)
  next
    case False
    with p Cons.IH show ?thesis by (simp add: keys_def)
  qed
qed

lemma map_of_dict_set: "map_of (dict_set d k v) = (map_of d)(k \<mapsto> v)"
  by (induction d) auto

subsection \<open>One candidate, one index, the whole run\<close>

lemma usable_cases:
  "usable fromtimestamp r \<longleftrightarrow>
   (\<exists>d bars. r = Response 200 (Some d) \<and> dates_data_of fromtimestamp d = Some bars \<and> 2 \<le> length bars)"
  by (auto simp: usable_def valid_bars_def split: http_result.splits option.splits)

lemma try_symbols_unusable:
  assumes "\<not> usable fromtimestamp (net (length (requested st)) s)"
  shows "\<exists>p. try_symbols fromtimestamp net index_name (s # rest) st =
             try_symbols fromtimestamp net index_name rest
               (st\<lparr>requested := requested st @ [s], pauses := pauses st @ p\<rparr>)"
proof -
  let ?go = "\<lambda>p. try_symbols fromtimestamp net index_name rest
               (st\<lparr>requested := requested st @ [s], pauses := pauses st @ p\<rparr>)"
  have "try_symbols fromtimestamp net index_name (s # rest) st = ?go [] \<or>
        try_symbols fromtimestamp net index_name (s # rest) st = ?go [300]"
    using assms
    by (auto simp: usable_cases sleep_ms_def Let_def split: http_result.splits option.splits)
  then show ?thesis by blast
qed

lemma try_symbols_usable:
  assumes "usable fromtimestamp (net (length (requested st)) s)"
  shows "try_symbols fromtimestamp net index_name (s # rest) st =
           st\<lparr>requested := requested st @ [s],
              today_open_data :=
                dict_set (today_open_data st) index_name
                  (today_record (valid_bars fromtimestamp (net (length (requested st)) s) ! 0) s),
              yesterday_data :=
                dict_set (yesterday_data st) index_name
                  (yesterday_record (valid_bars fromtimestamp (net (length (requested st)) s) ! 1) s)\<rparr>"
proof -
  from assms obtain d bars where r: "net (length (requested st)) s = Response 200 (Some d)"
    and b: "dates_data_of fromtimestamp d = Some bars" and l: "2 \<le> length bars"
    unfolding usable_cases by blast
  then show ?thesis by (simp add: valid_bars_def Let_def)
qed

lemma try_symbols_outcome:
  "(today_open_data (try_symbols f net name cands st) = today_open_data st \<and>
    yesterday_data (try_symbols f net name cands st) = yesterday_data st \<and>
    requested (try_symbols f net name cands st) = requested st @ cands \<and>
    (\<forall>i<length cands. \<not> usable f (net (length (requested st) + i) (cands ! i))))
   \<or>
   (\<exists>k<length cands.
      usable f (net (length (requested st) + k) (cands ! k)) \<and>
      (\<forall>i<k. \<not> usable f (net (length (requested st) + i) (cands ! i))) \<and>
      requested (try_symbols f net name cands st) = requested st @ take (Suc k) cands \<and>
      today_open_data (try_symbols f net name cands st) =
        dict_set (today_open_data st) name
          (today_record (valid_bars f (net (length (requested st) + k) (cands ! k)) ! 0) (cands ! k)) \<and>
      yesterday_data (try_symbols f net name cands st) =
        dict_set (yesterday_data st) name
          (yesterday_record (valid_bars f (net (length (requested st) + k) (cands ! k)) ! 1) (cands ! k)))"
  (is "?fail cands st \<or> ?succ cands st")
proof (induction cands arbitrary: st)
  case Nil
  then show ?case by simp
next
  case (Cons s rest)
  show ?case
  proof (cases "usable f (net (length (requested st)) s)")
    case True
    have "?succ (s # rest) st"
      using True
      by (intro exI [of _ 0])
         (simp add: try_symbols_usable [where net = net and st = st and s = s and fromtimestamp = f, OF True]
               del: try_symbols.simps)
    then show ?thesis ..
  next
    case False
    from try_symbols_unusable [where net = net and st = st and s = s and fromtimestamp = f, OF False]
    obtain p where
      eq: "try_symbols f net name (s # rest) st =
           try_symbols f net name rest (st\<lparr>requested := requested st @ [s], pauses := pauses st @ p\<rparr>)"
      by blast
    let ?st = "st\<lparr>requested := requested st @ [s], pauses := pauses st @ p\<rparr>"
    have len: "\<And>i. length (requested ?st) + i = length (requested st) + Suc i" by simp
    from Cons.IH [of ?st] show ?thesis
    proof
      assume a: "?fail rest ?st"
      have "\<forall>i<length (s # rest). \<not> usable f (net (length (requested st) + i) ((s # rest) ! i))"
      proof (intro allI impI)
        fix i assume i: "i < length (s # rest)"
        show "\<not> usable f (net (length (requested st) + i) ((s # rest) ! i))"
        proof (cases i)
          case 0
          with False show ?thesis by simp
        next
          case (Suc j)
          with i have "j < length rest" by simp
          with a have "\<not> usable f (net (length (requested ?st) + j) (rest ! j))" by blast
          with Suc show ?thesis by simp
        qed
      qed
      with a have "?fail (s # rest) st" unfolding eq by simp
      then show ?thesis ..
    next
      assume "?succ rest ?st"
      then obtain k where k: "k < length rest"
        and u: "usable f (net (length (requested ?st) + k) (rest ! k))"
        and n: "\<forall>i<k. \<not> usable f (net (length (requested ?st) + i) (rest ! i))"
        and r: "requested (try_symbols f net name rest ?st) = requested ?st @ take (Suc k) rest"
        and t: "today_open_data (try_symbols f net name rest ?st) =
                dict_set (today_open_data ?st) name
                  (today_record (valid_bars f (net (length (requested ?st) + k) (rest ! k)) ! 0) (rest ! k))"
        and y: "yesterday_data (try_symbols f net name rest ?st) =
                dict_set (yesterday_data ?st) name
                  (yesterday_record (valid_bars f (net (length (requested ?st) + k) (rest ! k)) ! 1) (rest ! k))"
        by blast
      have n': "\<forall>i<Suc k. \<not> usable f (net (length (requested st) + i) ((s # rest) ! i))"
      proof (intro allI impI)
        fix i assume i: "i < Suc k"
        show "\<not> usable f (net (length (requested st) + i) ((s # rest) ! i))"
        proof (cases i)
          case 0
          with False show ?thesis by simp
        next
          case (Suc j)
          with i have "j < k" by simp
          with n have "\<not> usable f (net (length (requested ?st) + j) (rest ! j))" by blast
          with Suc show ?thesis by simp
        qed
      qed
      have "?succ (s # rest) st"
        apply (rule exI [of _ "Suc k"])
        unfolding eq
        using k u n' r t y by simp
      then show ?thesis ..
    qed
  qed
qed

lemma try_symbols_keys_eq:
  assumes "keys (today_open_data st) = keys (yesterday_data st)"
  shows "keys (today_open_data (try_symbols f net name cands st)) =
         keys (yesterday_data (try_symbols f net name cands st))"
  using try_symbols_outcome [of f net name cands st] assms
  by (auto simp: keys_dict_set)

lemma fetch_loop_keys_eq:
  assumes "keys (today_open_data st) = keys (yesterday_data st)"
  shows "keys (today_open_data (fetch_loop f net alts syms st)) =
         keys (yesterday_data (fetch_loop f net alts syms st))"
  using assms
proof (induction syms arbitrary: st)
  case Nil
  then show ?case by simp
next
  case (Cons p syms)
  obtain index_name symbol where p: "p = (index_name, symbol)" by (cases p)
  show ?case
    unfolding p fetch_loop.simps
    by (rule Cons.IH) (simp add: sleep_ms_def try_symbols_keys_eq [OF Cons.prems])
qed

lemma try_symbols_keys_mono:
  "set (keys (today_open_data st)) \<subseteq> set (keys (today_open_data (try_symbols f net name cands st))) \<and>
   set (keys (yesterday_data st)) \<subseteq> set (keys (yesterday_data (try_symbols f net name cands st)))"
  using try_symbols_outcome [of f net name cands st]
  by (auto simp: keys_dict_set)

lemma try_symbols_new_key:
  assumes "k \<in> set (keys (today_open_data (try_symbols f net name cands st))) \<or>
           k \<in> set (keys (yesterday_data (try_symbols f net name cands st)))"
  shows "k \<in> set (keys (today_open_data st)) \<or> k \<in> set (keys (yesterday_data st)) \<or>
         (k = name \<and> (\<exists>c n. c \<in> set cands \<and> usable f (net n c)))"
proof -
  from try_symbols_outcome [of f net name cands st] show ?thesis
  proof
    assume "today_open_data (try_symbols f net name cands st) = today_open_data st \<and>
      yesterday_data (try_symbols f net name cands st) = yesterday_data st \<and>
      requested (try_symbols f net name cands st) = requested st @ cands \<and>
      (\<forall>i<length cands. \<not> usable f (net (length (requested st) + i) (cands ! i)))"
    with assms show ?thesis by auto
  next
    assume "\<exists>k<length cands.
      usable f (net (length (requested st) + k) (cands ! k)) \<and>
      (\<forall>i<k. \<not> usable f (net (length (requested st) + i) (cands ! i))) \<and>
      requested (try_symbols f net name cands st) = requested st @ take (Suc k) cands \<and>
      today_open_data (try_symbols f net name cands st) =
        dict_set (today_open_data st) name
          (today_record (valid_bars f (net (length (requested st) + k) (cands ! k)) ! 0) (cands ! k)) \<and>
      yesterday_data (try_symbols f net name cands st) =
        dict_set (yesterday_data st) name
          (yesterday_record (valid_bars f (net (length (requested st) + k) (cands ! k)) ! 1) (cands ! k))"
    then obtain j where j: "j < length cands"
      and u: "usable f (net (length (requested st) + j) (cands ! j))"
      and t: "keys (today_open_data (try_symbols f net name cands st)) =
              keys (dict_set (today_open_data st) name
                (today_record (valid_bars f (net (length (requested st) + j) (cands ! j)) ! 0) (cands ! j)))"
      and y: "keys (yesterday_data (try_symbols f net name cands st)) =
              keys (dict_set (yesterday_data st) name
                (yesterday_record (valid_bars f (net (length (requested st) + j) (cands ! j)) ! 1) (cands ! j)))"
      by auto
    from j have "cands ! j \<in> set cands" by simp
    with u have ex: "\<exists>c n. c \<in> set cands \<and> usable f (net n c)" by blast
    from assms show ?thesis
      unfolding t y keys_dict_set using ex by (auto split: if_splits)
  qed
qed

lemma fetch_loop_keys_mono:
  "set (keys (today_open_data st)) \<subseteq> set (keys (today_open_data (fetch_loop f net alts syms st))) \<and>
   set (keys (yesterday_data st)) \<subseteq> set (keys (yesterday_data (fetch_loop f net alts syms st)))"
proof (induction syms arbitrary: st)
  case Nil
  then show ?case by simp
next
  case (Cons p syms)
  obtain index_name symbol where p: "p = (index_name, symbol)" by (cases p)
  let ?st = "sleep_ms 500 (try_symbols f net index_name (symbols_to_try alts index_name symbol) st)"
  have a: "set (keys (today_open_data st)) \<subseteq> set (keys (today_open_data ?st)) \<and>
           set (keys (yesterday_data st)) \<subseteq> set (keys (yesterday_data ?st))"
    using try_symbols_keys_mono [of st f net index_name "symbols_to_try alts index_name symbol"]
    by (simp add: sleep_ms_def)
  from a Cons.IH [of ?st] show ?case unfolding p fetch_loop.simps by blast
qed

lemma fetch_loop_present_only_if:
  assumes "k \<in> set (keys (today_open_data (fetch_loop f net alts syms st))) \<or>
           k \<in> set (keys (yesterday_data (fetch_loop f net alts syms st)))"
  shows "k \<in> set (keys (today_open_data st)) \<or> k \<in> set (keys (yesterday_data st)) \<or>
         (\<exists>symbol c n. (k, symbol) \<in> set syms \<and> c \<in> set (symbols_to_try alts k symbol) \<and>
                        usable f (net n c))"
  using assms
proof (induction syms arbitrary: st)
  case Nil
  then show ?case by simp
next
  case (Cons p syms)
  obtain index_name symbol where p: "p = (index_name, symbol)" by (cases p)
  let ?cands = "symbols_to_try alts index_name symbol"
  let ?st = "sleep_ms 500 (try_symbols f net index_name ?cands st)"
  from Cons.prems have "k \<in> set (keys (today_open_data (fetch_loop f net alts syms ?st))) \<or>
      k \<in> set (keys (yesterday_data (fetch_loop f net alts syms ?st)))"
    unfolding p fetch_loop.simps .
  from Cons.IH [OF this]
  have "k \<in> set (keys (today_open_data ?st)) \<or> k \<in> set (keys (yesterday_data ?st)) \<or>
        (\<exists>symbol c n. (k, symbol) \<in> set syms \<and> c \<in> set (symbols_to_try alts k symbol) \<and>
                       usable f (net n c))" .
  then consider
      (here) "k \<in> set (keys (today_open_data (try_symbols f net index_name ?cands st))) \<or>
              k \<in> set (keys (yesterday_data (try_symbols f net index_name ?cands st)))"
    | (later) "\<exists>symbol c n. (k, symbol) \<in> set syms \<and> c \<in> set (symbols_to_try alts k symbol) \<and>
                       usable f (net n c)"
    by (auto simp: sleep_ms_def)
  then show ?case
  proof cases
    case here
    from try_symbols_new_key [OF here] show ?thesis unfolding p by auto
  next
    case later
    then show ?thesis unfolding p by auto
  qed
qed

lemma resolver_first_success_aux:
  assumes "\<forall>i<length pre. \<not> usable f (net (length (requested st) + i) (pre ! i))"
      and "usable f (net (length (requested st) + length pre) c)"
  shows "requested (try_symbols f net name (pre @ c # post) st) = requested st @ pre @ [c] \<and>
         today_open_data (try_symbols f net name (pre @ c # post) st) =
           dict_set (today_open_data st) name
             (today_record (valid_bars f (net (length (requested st) + length pre) c) ! 0) c) \<and>
         yesterday_data (try_symbols f net name (pre @ c # post) st) =
           dict_set (yesterday_data st) name
             (yesterday_record (valid_bars f (net (length (requested st) + length pre) c) ! 1) c)"
proof -
  let ?cands = "pre @ c # post"
  let ?n = "length (requested st)"
  have at: "?cands ! length pre = c" by simp
  have "\<not> (\<forall>i<length ?cands. \<not> usable f (net (?n + i) (?cands ! i)))"
  proof
    assume a: "\<forall>i<length ?cands. \<not> usable f (net (?n + i) (?cands ! i))"
    have "length pre < length ?cands" by simp
    with a have "\<not> usable f (net (?n + length pre) (?cands ! length pre))" by blast
    with assms(2) show False by simp
  qed
  with try_symbols_outcome [of f net name ?cands st]
  obtain k where k: "k < length ?cands"
    and u: "usable f (net (?n + k) (?cands ! k))"
    and n: "\<forall>i<k. \<not> usable f (net (?n + i) (?cands ! i))"
    and r: "requested (try_symbols f net name ?cands st) = requested st @ take (Suc k) ?cands"
    and t: "today_open_data (try_symbols f net name ?cands st) =
              dict_set (today_open_data st) name
                (today_record (valid_bars f (net (?n + k) (?cands ! k)) ! 0) (?cands ! k))"
    and y: "yesterday_data (try_symbols f net name ?cands st) =
              dict_set (yesterday_data st) name
                (yesterday_record (valid_bars f (net (?n + k) (?cands ! k)) ! 1) (?cands ! k))"
    by blast
  have "k = length pre"
  proof (rule ccontr)
    assume ne: "k \<noteq> length pre"
    show False
    proof (cases "k < length pre")
      case True
      then have "?cands ! k = pre ! k" by (simp add: nth_append)
      with u assms(1) True show False by simp
    next
      case False
      with ne have "length pre < k" by simp
      with n have "\<not> usable f (net (?n + length pre) (?cands ! length pre))" by blast
      with assms(2) show False by simp
    qed
  qed
  with r t y show ?thesis by simp
qed

lemma build_dates_data_pairs:
  "build_dates_data f i ts opens closes highs lows = Some bars \<Longrightarrow>
   map (\<lambda>b. (bar_open b, bar_close b)) bars =
   map (\<lambda>j. (opens ! j, closes ! j))
     (filter (\<lambda>j. j < length closes \<and> closes ! j \<noteq> None \<and> j < length opens \<and> opens ! j \<noteq> None)
        [i ..< i + length ts])"
proof (induction ts arbitrary: i bars)
  case Nil
  then show ?case by simp
next
  case (Cons t ts)
  have upt: "[i ..< i + length (t # ts)] = i # [Suc i ..< Suc i + length ts]"
    using upt_rec [of i "i + length (t # ts)"] by simp
  show ?case
  proof (cases "i < length closes \<and> closes ! i \<noteq> None \<and> i < length opens \<and> opens ! i \<noteq> None")
    case True
    with Cons.prems obtain date_str rest where
      r: "build_dates_data f (Suc i) ts opens closes highs lows = Some rest" and
      b: "bars = \<lparr>bar_date = date_str,
                   bar_open = opens ! i, bar_close = closes ! i,
                   bar_high = (if i < length highs then highs ! i else None),
                   bar_low = (if i < length lows then lows ! i else None)\<rparr> # rest"
      by (auto split: option.splits)
    from Cons.IH [OF r] True show ?thesis unfolding upt b by simp
  next
    case False
    with Cons.prems have "build_dates_data f (Suc i) ts opens closes highs lows = Some bars"
      by auto
    from Cons.IH [OF this] False show ?thesis unfolding upt by auto
  qed
qed

lemma mset_sort_by_date_desc: "mset (sort_by_date_desc bars) = mset bars"
  by (simp add: sort_by_date_desc_def)

lemma set_sort_by_date_desc: "set (sort_by_date_desc bars) = set bars"
  by (simp add: sort_by_date_desc_def)

lemma sorted_sort_by_date_desc: "sorted (rev (map bar_date (sort_by_date_desc bars)))"
  by (simp add: sort_by_date_desc_def rev_map [symmetric])

text \<open>The run, cut at one index of the list.\<close>

lemma fetch_loop_append:
  "fetch_loop f net alts (xs @ ys) st = fetch_loop f net alts ys (fetch_loop f net alts xs st)"
proof (induction xs arbitrary: st)
  case Nil
  show ?case by simp
next
  case (Cons p xs)
  obtain index_name symbol where p: "p = (index_name, symbol)" by (cases p)
  show ?case unfolding p by (simp add: Cons.IH)
qed

lemma fetch_loop_keys_within:
  assumes "k \<in> set (keys (today_open_data (fetch_loop f net alts syms st))) \<or>
           k \<in> set (keys (yesterday_data (fetch_loop f net alts syms st)))"
  shows "k \<in> set (keys (today_open_data st)) \<or> k \<in> set (keys (yesterday_data st)) \<or>
         k \<in> set (map fst syms)"
proof -
  from fetch_loop_present_only_if [OF assms]
  have "k \<in> set (keys (today_open_data st)) \<or> k \<in> set (keys (yesterday_data st)) \<or>
        (\<exists>symbol. (k, symbol) \<in> set syms)"
    by blast
  then show ?thesis by force
qed

lemma fetch_loop_at_index:
  assumes syms: "syms = before @ (name, symbol) # after"
      and dist: "distinct (map fst syms)"
      and st_b: "st_b = fetch_loop f net alts before initial_state"
      and cands: "cands = symbols_to_try alts name symbol"
  shows "fetch_loop f net alts syms initial_state =
           fetch_loop f net alts after (sleep_ms 500 (try_symbols f net name cands st_b))"
    and "name \<in> set (keys (today_open_data (fetch_loop f net alts syms initial_state))) \<longleftrightarrow>
           (\<exists>i<length cands. usable f (net (length (requested st_b) + i) (cands ! i)))"
    and "name \<in> set (keys (yesterday_data (fetch_loop f net alts syms initial_state))) \<longleftrightarrow>
           (\<exists>i<length cands. usable f (net (length (requested st_b) + i) (cands ! i)))"
proof -
  let ?mid = "try_symbols f net name cands st_b"
  let ?final = "fetch_loop f net alts syms initial_state"
  show eq: "?final = fetch_loop f net alts after (sleep_ms 500 ?mid)"
    unfolding syms fetch_loop_append st_b cands by simp
  have nb: "name \<notin> set (map fst before)" and na: "name \<notin> set (map fst after)"
    using dist unfolding syms by auto
  have b: "name \<notin> set (keys (today_open_data st_b)) \<and> name \<notin> set (keys (yesterday_data st_b))"
  proof (rule ccontr)
    assume "\<not> ?thesis"
    then have "name \<in> set (keys (today_open_data st_b)) \<or> name \<in> set (keys (yesterday_data st_b))"
      by blast
    from fetch_loop_keys_within [OF this [unfolded st_b]] nb show False
      by (simp add: initial_state_def keys_def)
  qed
  have mid_final:
    "name \<in> set (keys (today_open_data ?final)) \<longleftrightarrow> name \<in> set (keys (today_open_data ?mid))"
    "name \<in> set (keys (yesterday_data ?final)) \<longleftrightarrow> name \<in> set (keys (yesterday_data ?mid))"
  proof -
    have keep: "today_open_data (sleep_ms 500 ?mid) = today_open_data ?mid"
               "yesterday_data (sleep_ms 500 ?mid) = yesterday_data ?mid"
      by (simp_all add: sleep_ms_def)
    have mono: "set (keys (today_open_data ?mid)) \<subseteq> set (keys (today_open_data ?final)) \<and>
                set (keys (yesterday_data ?mid)) \<subseteq> set (keys (yesterday_data ?final))"
      using fetch_loop_keys_mono [of "sleep_ms 500 ?mid" f net alts after] unfolding eq keep .
    have eqk: "keys (today_open_data ?mid) = keys (yesterday_data ?mid)"
              "keys (today_open_data ?final) = keys (yesterday_data ?final)"
    proof -
      have i: "keys (today_open_data initial_state) = keys (yesterday_data initial_state)"
        by (simp add: initial_state_def)
      have "keys (today_open_data st_b) = keys (yesterday_data st_b)"
        unfolding st_b by (rule fetch_loop_keys_eq [OF i])
      then show "keys (today_open_data ?mid) = keys (yesterday_data ?mid)"
        by (rule try_symbols_keys_eq)
      show "keys (today_open_data ?final) = keys (yesterday_data ?final)"
        by (rule fetch_loop_keys_eq [OF i])
    qed
    have inv: "name \<in> set (keys (today_open_data ?mid))"
      if "name \<in> set (keys (today_open_data ?final))"
    proof -
      from that have "name \<in> set (keys (today_open_data (fetch_loop f net alts after (sleep_ms 500 ?mid)))) \<or>
          name \<in> set (keys (yesterday_data (fetch_loop f net alts after (sleep_ms 500 ?mid))))"
        unfolding eq by blast
      from fetch_loop_keys_within [OF this] na show ?thesis
        unfolding keep eqk(1) by blast
    qed
    from inv mono show "name \<in> set (keys (today_open_data ?final)) \<longleftrightarrow>
        name \<in> set (keys (today_open_data ?mid))" by blast
    then show "name \<in> set (keys (yesterday_data ?final)) \<longleftrightarrow>
        name \<in> set (keys (yesterday_data ?mid))"
      unfolding eqk [symmetric] .
  qed
  have mid: "name \<in> set (keys (today_open_data ?mid)) \<longleftrightarrow>
               (\<exists>i<length cands. usable f (net (length (requested st_b) + i) (cands ! i)))"
            "name \<in> set (keys (yesterday_data ?mid)) \<longleftrightarrow>
               (\<exists>i<length cands. usable f (net (length (requested st_b) + i) (cands ! i)))"
    using try_symbols_outcome [of f net name cands st_b] b
    by (auto simp: keys_dict_set)
  from mid mid_final
  show "name \<in> set (keys (today_open_data ?final)) \<longleftrightarrow>
           (\<exists>i<length cands. usable f (net (length (requested st_b) + i) (cands ! i)))"
    and "name \<in> set (keys (yesterday_data ?final)) \<longleftrightarrow>
           (\<exists>i<length cands. usable f (net (length (requested st_b) + i) (cands ! i)))"
    by simp_all
qed

subsection \<open>The sections of the report\<close>

lemma set_set_difference: "set (set_difference slot xs ys) = set xs - set ys"
  by (auto simp: set_difference_def)

lemma distinct_set_difference: "distinct (set_difference slot xs ys)"
  by (simp add: set_difference_def)

lemma sort_key_short: "length xs \<le> 1 \<Longrightarrow> sort_key k xs = xs"
  by (cases xs) (auto simp: Suc_le_eq)

lemma set_difference_slot_irrelevant:
  assumes "card (set xs - set ys) \<le> 1"
  shows "set_difference slot1 xs ys = set_difference slot2 xs ys"
proof -
  let ?l = "filter (\<lambda>x. x \<notin> set ys) (remdups xs)"
  have "set ?l = set xs - set ys" by auto
  moreover have "distinct ?l" by simp
  ultimately have "length ?l = card (set xs - set ys)"
    using distinct_card [of ?l] by simp
  with assms have "length ?l \<le> 1" by simp
  then show ?thesis unfolding set_difference_def by (simp add: sort_key_short)
qed

lemma format_report:
  assumes "\<not> (today_map = [] \<and> yesterday_map = [])"
  shows "format_simplified_message str_float slot current_time today_map yesterday_map =
         report_head current_time @ today_section str_float today_map @
         yesterday_section str_float yesterday_map @
         data_status slot today_map yesterday_map @ report_foot"
  using assms unfolding format_simplified_message_def by (cases "today_map = []") simp_all

lemma missing_today_empty_iff:
  "missing_today slot today_map = [] \<longleftrightarrow> set all_expected_indices \<subseteq> set (keys today_map)"
proof -
  have "missing_today slot today_map = [] \<longleftrightarrow> set (missing_today slot today_map) = {}"
    by simp
  also have "\<dots> \<longleftrightarrow> set all_expected_indices - set (keys today_map) = {}"
    by (simp only: missing_today_def set_set_difference)
  also have "\<dots> \<longleftrightarrow> set all_expected_indices \<subseteq> set (keys today_map)"
    by (rule Diff_eq_empty_iff)
  finally show ?thesis .
qed

lemma missing_yesterday_empty_iff:
  "missing_yesterday slot yesterday_map = [] \<longleftrightarrow> set all_expected_indices \<subseteq> set (keys yesterday_map)"
proof -
  have "missing_yesterday slot yesterday_map = [] \<longleftrightarrow> set (missing_yesterday slot yesterday_map) = {}"
    by simp
  also have "\<dots> \<longleftrightarrow> set all_expected_indices - set (keys yesterday_map) = {}"
    by (simp only: missing_yesterday_def set_set_difference)
  also have "\<dots> \<longleftrightarrow> set all_expected_indices \<subseteq> set (keys yesterday_map)"
    by (rule Diff_eq_empty_iff)
  finally show ?thesis .
qed

lemma data_status_empty_iff:
  "data_status slot today_map yesterday_map = [] \<longleftrightarrow>
   missing_today slot today_map = [] \<and> missing_yesterday slot yesterday_map = []"
proof (cases "missing_today slot today_map = [] \<and> missing_yesterday slot yesterday_map = []")
  case True
  then show ?thesis by (simp add: data_status_def)
next
  case False
  then have "data_status slot today_map yesterday_map \<noteq> []"
    unfolding data_status_def nl_def by (simp only: if_True if_False de_Morgan_conj) simp
  with False show ?thesis by simp
qed


subsection \<open>The retry loop\<close>

lemma send_loop_attempts_bounds:
  "attempt \<le> attempts (send_loop post message max_retries attempt slept) \<and>
   attempts (send_loop post message max_retries attempt slept) \<le> max attempt max_retries"
proof (induction post message max_retries attempt slept rule: send_loop.induct)
  case (1 post message max_retries attempt slept)
  show ?case
    using "1.IH" by (subst (1 2) send_loop.simps) (auto split: post_outcome.splits)
qed



lemma send_loop_exhausted:
  "\<not> attempt < max_retries \<Longrightarrow>
   send_loop post message max_retries attempt slept = \<lparr>sent = False, attempts = attempt, sleeps = slept\<rparr>"
  by (subst send_loop.simps) simp

lemma send_loop_ok:
  "attempt < max_retries \<Longrightarrow> post attempt message = Status 200 \<Longrightarrow>
   send_loop post message max_retries attempt slept = \<lparr>sent = True, attempts = attempt + 1, sleeps = slept\<rparr>"
  by (subst send_loop.simps) simp

lemma send_loop_last_failed:
  "attempt < max_retries \<Longrightarrow> post attempt message \<noteq> Status 200 \<Longrightarrow> \<not> attempt < max_retries - 1 \<Longrightarrow>
   send_loop post message max_retries attempt slept = \<lparr>sent = False, attempts = attempt + 1, sleeps = slept\<rparr>"
  by (subst send_loop.simps) (simp split: post_outcome.splits)

lemma send_loop_retry:
  "attempt < max_retries - 1 \<Longrightarrow> post attempt message \<noteq> Status 200 \<Longrightarrow>
   send_loop post message max_retries attempt slept =
   send_loop post message max_retries (attempt + 1) (slept @ [backoff (post attempt message) (attempt + 1)])"
  by (subst send_loop.simps) (simp split: post_outcome.splits)

lemma ex_from_split:
  "(\<exists>k. a \<le> k \<and> k < n \<and> P k) \<longleftrightarrow> (a < n \<and> P a) \<or> (\<exists>k. Suc a \<le> k \<and> k < n \<and> P k)"
proof
  assume "\<exists>k. a \<le> k \<and> k < n \<and> P k"
  then obtain k where k: "a \<le> k" "k < n" "P k" by blast
  show "(a < n \<and> P a) \<or> (\<exists>k. Suc a \<le> k \<and> k < n \<and> P k)"
  proof (cases "k = a")
    case True
    with k show ?thesis by simp
  next
    case False
    with k have "Suc a \<le> k" by simp
    with k show ?thesis by blast
  qed
next
  assume "(a < n \<and> P a) \<or> (\<exists>k. Suc a \<le> k \<and> k < n \<and> P k)"
  then show "\<exists>k. a \<le> k \<and> k < n \<and> P k"
  proof
    assume "a < n \<and> P a"
    then show ?thesis by (intro exI [of _ a]) simp
  next
    assume "\<exists>k. Suc a \<le> k \<and> k < n \<and> P k"
    then obtain k where "Suc a \<le> k" "k < n" "P k" by blast
    then show ?thesis by (intro exI [of _ k]) simp
  qed
qed

lemma send_loop_sent_iff:
  "sent (send_loop post message max_retries attempt slept) \<longleftrightarrow>
   (\<exists>k. attempt \<le> k \<and> k < max_retries \<and> post k message = Status 200)"
proof (induction "max_retries - attempt" arbitrary: attempt slept)
  case 0
  then show ?case by (simp add: send_loop_exhausted)
next
  case (Suc d)
  then have lt: "attempt < max_retries" by simp
  note split = ex_from_split [of attempt max_retries "\<lambda>k. post k message = Status 200"]
  show ?case
  proof (cases "post attempt message = Status 200")
    case True
    with lt show ?thesis by (simp add: send_loop_ok split)
  next
    case ne: False
    show ?thesis
    proof (cases "attempt < max_retries - 1")
      case False
      with lt have "\<not> (\<exists>k. Suc attempt \<le> k \<and> k < max_retries \<and> post k message = Status 200)"
        by auto
      with lt ne False show ?thesis by (simp add: send_loop_last_failed split)
    next
      case True
      have d: "d = max_retries - (attempt + 1)" using Suc.hyps(2) by simp
      have eq: "send_loop post message max_retries attempt slept =
          send_loop post message max_retries (attempt + 1)
            (slept @ [backoff (post attempt message) (attempt + 1)])"
        using True ne by (rule send_loop_retry)
      show ?thesis
        using Suc.hyps(1) [OF d] ne unfolding eq split by simp
    qed
  qed
qed


lemma send_loop_first_success:
  "sent (send_loop post message max_retries attempt slept) \<Longrightarrow>
   attempt < attempts (send_loop post message max_retries attempt slept) \<and>
   attempts (send_loop post message max_retries attempt slept) \<le> max_retries \<and>
   post (attempts (send_loop post message max_retries attempt slept) - 1) message = Status 200 \<and>
   (\<forall>k. attempt \<le> k \<and> k < attempts (send_loop post message max_retries attempt slept) - 1
        \<longrightarrow> post k message \<noteq> Status 200)"
proof (induction "max_retries - attempt" arbitrary: attempt slept)
  case 0
  then show ?case by (simp add: send_loop_exhausted)
next
  case (Suc d)
  then have lt: "attempt < max_retries" by simp
  show ?case
  proof (cases "post attempt message = Status 200")
    case True
    with lt show ?thesis by (auto simp: send_loop_ok)
  next
    case ne: False
    show ?thesis
    proof (cases "attempt < max_retries - 1")
      case False
      with lt ne Suc.prems show ?thesis by (simp add: send_loop_last_failed)
    next
      case True
      let ?r = "send_loop post message max_retries (attempt + 1)
                  (slept @ [backoff (post attempt message) (attempt + 1)])"
      have eq: "send_loop post message max_retries attempt slept = ?r"
        using True ne by (rule send_loop_retry)
      have d: "d = max_retries - (attempt + 1)" using Suc.hyps(2) by simp
      have s: "sent ?r" using Suc.prems eq by simp
      note ih = Suc.hyps(1) [OF d s]
      have "\<forall>k. attempt \<le> k \<and> k < attempts ?r - 1 \<longrightarrow> post k message \<noteq> Status 200"
      proof (intro allI impI)
        fix k assume k: "attempt \<le> k \<and> k < attempts ?r - 1"
        show "post k message \<noteq> Status 200"
        proof (cases "k = attempt")
          case True
          with ne show ?thesis by simp
        next
          case False
          with k have "attempt + 1 \<le> k \<and> k < attempts ?r - 1" by simp
          with ih show ?thesis by blast
        qed
      qed
      with ih show ?thesis unfolding eq by simp
    qed
  qed
qed

lemma send_loop_failed_attempts:
  "\<not> sent (send_loop post message max_retries attempt slept) \<Longrightarrow> attempt \<le> max_retries \<Longrightarrow>
   attempts (send_loop post message max_retries attempt slept) = max_retries"
proof (induction "max_retries - attempt" arbitrary: attempt slept)
  case 0
  then show ?case by (simp add: send_loop_exhausted)
next
  case (Suc d)
  then have lt: "attempt < max_retries" by simp
  show ?case
  proof (cases "post attempt message = Status 200")
    case True
    with lt Suc.prems show ?thesis by (simp add: send_loop_ok)
  next
    case ne: False
    show ?thesis
    proof (cases "attempt < max_retries - 1")
      case False
      with lt ne show ?thesis by (simp add: send_loop_last_failed)
    next
      case True
      have eq: "send_loop post message max_retries attempt slept =
          send_loop post message max_retries (attempt + 1)
            (slept @ [backoff (post attempt message) (attempt + 1)])"
        using True ne by (rule send_loop_retry)
      have d: "d = max_retries - (attempt + 1)" using Suc.hyps(2) by simp
      show ?thesis
        using Suc.hyps(1) [OF d] Suc.prems lt unfolding eq by simp
    qed
  qed
qed

lemma send_loop_sleeps:
  "sleeps (send_loop post message max_retries attempt slept) =
   slept @ map (\<lambda>k. backoff (post k message) (k + 1))
             [attempt ..< attempts (send_loop post message max_retries attempt slept) - 1]"
proof (induction "max_retries - attempt" arbitrary: attempt slept)
  case 0
  then show ?case by (simp add: send_loop_exhausted)
next
  case (Suc d)
  then have lt: "attempt < max_retries" by simp
  show ?case
  proof (cases "post attempt message = Status 200")
    case True
    with lt show ?thesis by (simp add: send_loop_ok)
  next
    case ne: False
    show ?thesis
    proof (cases "attempt < max_retries - 1")
      case False
      with lt ne show ?thesis by (simp add: send_loop_last_failed)
    next
      case True
      let ?r = "send_loop post message max_retries (attempt + 1)
                  (slept @ [backoff (post attempt message) (attempt + 1)])"
      have eq: "send_loop post message max_retries attempt slept = ?r"
        using True ne by (rule send_loop_retry)
      have d: "d = max_retries - (attempt + 1)" using Suc.hyps(2) by simp
      have ge: "attempt + 1 \<le> attempts ?r" by (simp add: send_loop_attempts_bounds)
      have ge2: "attempt + 2 \<le> attempts ?r \<or> attempts ?r = attempt + 1" using ge by arith
      from ge2 show ?thesis
      proof
        assume a: "attempt + 2 \<le> attempts ?r"
        then have "[attempt ..< attempts ?r - 1] = attempt # [attempt + 1 ..< attempts ?r - 1]"
          by (simp add: upt_conv_Cons)
        then show ?thesis unfolding eq using Suc.hyps(1) [OF d, of "slept @ [backoff (post attempt message) (attempt + 1)]"]
          by simp
      next
        assume a: "attempts ?r = attempt + 1"
        have "sent ?r \<or> \<not> sent ?r" by simp
        then show ?thesis
        proof
          assume "sent ?r"
          from send_loop_first_success [OF this] a show ?thesis by simp
        next
          assume "\<not> sent ?r"
          from send_loop_failed_attempts [OF this] a True show ?thesis by simp
        qed
      qed
    qed
  qed
qed



subsection \<open>The sample answers\<close>

lemma fallback_primary_unusable: "\<not> usable ist_date (fallback_net n ''NIFTY_MID_SELECT.NS'')"
  by (simp add: usable_def valid_bars_def fallback_net_def)

lemma three_bars_sorted:
  "dates_data_of ist_date three_bars = Some
     [\<lparr>bar_date = ''2024-01-03'', bar_open = Some 21661.1, bar_close = Some 21517.35,
       bar_high = Some 21677, bar_low = Some 21500.35\<rparr>,
      \<lparr>bar_date = ''2024-01-02'', bar_open = Some 21751.35, bar_close = Some 21665.8,
       bar_high = Some 21755.6, bar_low = Some 21555.65\<rparr>,
      \<lparr>bar_date = ''2024-01-01'', bar_open = Some 21727.754, bar_close = Some 21741.9,
       bar_high = Some 21834.35, bar_low = Some 21680.85\<rparr>]"
  by code_simp

lemma fallback_alternative_usable: "usable ist_date (fallback_net n ''^NSEMDCP50'')"
  by (simp add: usable_def valid_bars_def fallback_net_def three_bars_sorted)


lemma bank_only_usable: "usable ist_date (bank_only_net n ''^NSEBANK'')"
  by (simp add: usable_def valid_bars_def bank_only_net_def three_bars_sorted)

lemma bank_only_unusable: "c \<noteq> ''^NSEBANK'' \<Longrightarrow> \<not> usable ist_date (bank_only_net n c)"
  by (simp add: usable_def valid_bars_def bank_only_net_def)

lemma null_middle_sorted:
  "dates_data_of ist_date null_middle_bars = Some
     [\<lparr>bar_date = ''2024-01-03'', bar_open = Some 21661.1, bar_close = Some 21517.35,
       bar_high = Some 21677, bar_low = Some 21500.35\<rparr>,
      \<lparr>bar_date = ''2024-01-01'', bar_open = Some 21727.75, bar_close = Some 21741.9,
       bar_high = Some 21834.35, bar_low = Some 21680.85\<rparr>]"
  by code_simp

lemma zero_open_sorted:
  "dates_data_of ist_date zero_open_bars = Some
     [\<lparr>bar_date = ''2024-01-03'', bar_open = Some 0, bar_close = Some 21517.35,
       bar_high = Some 21677, bar_low = Some 21500.35\<rparr>,
      \<lparr>bar_date = ''2024-01-02'', bar_open = Some 21751.35, bar_close = Some 21665.8,
       bar_high = Some 21755.6, bar_low = Some 21555.65\<rparr>]"
  by code_simp

subsection \<open>The sample reports\<close>

lemma all_expected_indices_set:
  "set all_expected_indices = {''NIFTY 50'', ''NIFTY BANK'', ''NIFTY MID SELECT'', ''NIFTY FINANCIAL SERVICES''}"
  by (simp add: all_expected_indices_def)

lemma data_status_cases:
  "data_status slot today_map yesterday_map =
     (if set all_expected_indices \<subseteq> set (keys today_map) \<and>
         set all_expected_indices \<subseteq> set (keys yesterday_map) then []
      else nl @ glyph_warning @ '' *Data Status*'' @ nl @
           (if set all_expected_indices \<subseteq> set (keys today_map) then []
            else ''Missing today's data: '' @ join '', '' (missing_today slot today_map) @ nl) @
           (if set all_expected_indices \<subseteq> set (keys yesterday_map) then []
            else ''Missing yesterday's data: '' @ join '', '' (missing_yesterday slot yesterday_map) @ nl))"
  unfolding data_status_def missing_today_empty_iff missing_yesterday_empty_iff
  by (simp only: de_Morgan_conj [symmetric] if_not_P if_P split: if_splits) simp

lemma three_present_missing:
  "missing_today slot three_present = [''NIFTY FINANCIAL SERVICES'']"
  "missing_yesterday slot three_present = [''NIFTY FINANCIAL SERVICES'']"
  by (simp_all add: missing_today_def missing_yesterday_def set_difference_def
        all_expected_indices_def three_present_def keys_def)

lemma three_present_not_all:
  "\<not> set all_expected_indices \<subseteq> set (keys three_present)"
  by (simp add: all_expected_indices_def three_present_def keys_def)

lemma three_present_one_missing:
  "card (set all_expected_indices - set (keys three_present)) \<le> 1"
  by (simp add: all_expected_indices_def three_present_def keys_def)

lemma sample_missing_short_first:
  "missing_today slot_short_first sample_today =
     [''NIFTY BANK'', ''NIFTY MID SELECT'', ''NIFTY FINANCIAL SERVICES'']"
  "missing_yesterday slot_short_first sample_yesterday =
     [''NIFTY BANK'', ''NIFTY MID SELECT'', ''NIFTY FINANCIAL SERVICES'']"
  by (simp_all add: missing_today_def missing_yesterday_def set_difference_def
        all_expected_indices_def sample_today_def sample_yesterday_def keys_def slot_short_first_def)

lemma sample_missing_long_first:
  "missing_today slot_long_first sample_today =
     [''NIFTY FINANCIAL SERVICES'', ''NIFTY MID SELECT'', ''NIFTY BANK'']"
  "missing_yesterday slot_long_first sample_yesterday =
     [''NIFTY FINANCIAL SERVICES'', ''NIFTY MID SELECT'', ''NIFTY BANK'']"
  by (simp_all add: missing_today_def missing_yesterday_def set_difference_def
        all_expected_indices_def sample_today_def sample_yesterday_def keys_def slot_long_first_def)

section \<open>Claims about the fetch\<close>

text \<open>
  C1: the resolver asks for the candidates in the order of the list. If the answers to
  the candidates \<open>pre\<close> yield fewer than two bars each and the answer to the next
  candidate \<open>c\<close> yields at least two, then exactly \<open>pre\<close> and \<open>c\<close> are requested, in this
  order, and no candidate after \<open>c\<close>; the record of today and the record of yesterday of
  the index are built from the first and the second bar of that answer, and the
  \<open>symbol_used\<close> of both is \<open>c\<close>.
\<close>

theorem resolver_first_success:
  assumes "\<forall>i<length pre. \<not> usable fromtimestamp (net (length (requested st) + i) (pre ! i))"
      and "usable fromtimestamp (net (length (requested st) + length pre) c)"
  shows "requested (try_symbols fromtimestamp net index_name (pre @ c # post) st) =
           requested st @ pre @ [c] \<and>
         map_of (today_open_data (try_symbols fromtimestamp net index_name (pre @ c # post) st))
             index_name =
           Some (today_record
                   (valid_bars fromtimestamp (net (length (requested st) + length pre) c) ! 0) c) \<and>
         map_of (yesterday_data (try_symbols fromtimestamp net index_name (pre @ c # post) st))
             index_name =
           Some (yesterday_record
                   (valid_bars fromtimestamp (net (length (requested st) + length pre) c) ! 1) c) \<and>
         map_option (\<lambda>values. map_of values ''symbol_used'')
             (map_of (today_open_data (try_symbols fromtimestamp net index_name (pre @ c # post) st))
                index_name) =
           Some (Some (PStr c)) \<and>
         map_option (\<lambda>values. map_of values ''symbol_used'')
             (map_of (yesterday_data (try_symbols fromtimestamp net index_name (pre @ c # post) st))
                index_name) =
           Some (Some (PStr c))"
  using resolver_first_success_aux [OF assms, of index_name post]
  by (simp add: map_of_dict_set today_record_def yesterday_record_def)


text \<open>
  The mid-cap index with its four candidates, when the primary symbol's answer is not
  JSON and the first alternative has three bars: two requests, and both records name the
  alternative.
\<close>

theorem resolver_first_success_witness:
  "requested (try_symbols ist_date fallback_net ''NIFTY MID SELECT''
      ([''NIFTY_MID_SELECT.NS''] @ ''^NSEMDCP50'' # [''NIFTY_MIDCAP_100.NS'', ''NIFTYMIDCAP150.NS''])
      initial_state) = [''NIFTY_MID_SELECT.NS'', ''^NSEMDCP50''] \<and>
   map_option (\<lambda>values. map_of values ''symbol_used'')
     (map_of (today_open_data (try_symbols ist_date fallback_net ''NIFTY MID SELECT''
        ([''NIFTY_MID_SELECT.NS''] @ ''^NSEMDCP50'' # [''NIFTY_MIDCAP_100.NS'', ''NIFTYMIDCAP150.NS''])
        initial_state)) ''NIFTY MID SELECT'') = Some (Some (PStr ''^NSEMDCP50'')) \<and>
   map_option (\<lambda>values. map_of values ''symbol_used'')
     (map_of (yesterday_data (try_symbols ist_date fallback_net ''NIFTY MID SELECT''
        ([''NIFTY_MID_SELECT.NS''] @ ''^NSEMDCP50'' # [''NIFTY_MIDCAP_100.NS'', ''NIFTYMIDCAP150.NS''])
        initial_state)) ''NIFTY MID SELECT'') = Some (Some (PStr ''^NSEMDCP50''))"
proof -
  have h1: "\<forall>i<length [''NIFTY_MID_SELECT.NS''].
      \<not> usable ist_date (fallback_net (length (requested initial_state) + i) ([''NIFTY_MID_SELECT.NS''] ! i))"
    by (simp add: fallback_primary_unusable)
  have h2: "usable ist_date
      (fallback_net (length (requested initial_state) + length [''NIFTY_MID_SELECT.NS'']) ''^NSEMDCP50'')"
    by (rule fallback_alternative_usable)
  note t = resolver_first_success [OF h1 h2, of "''NIFTY MID SELECT''"
      "[''NIFTY_MIDCAP_100.NS'', ''NIFTYMIDCAP150.NS'']"]
  have r: "requested initial_state = []" by (simp add: initial_state_def)
  from t [THEN conjunct1] have c1:
    "requested (try_symbols ist_date fallback_net ''NIFTY MID SELECT''
      ([''NIFTY_MID_SELECT.NS''] @ ''^NSEMDCP50'' # [''NIFTY_MIDCAP_100.NS'', ''NIFTYMIDCAP150.NS''])
      initial_state) = [''NIFTY_MID_SELECT.NS'', ''^NSEMDCP50'']"
    by (simp only: r append.simps)
  note c4 = t [THEN conjunct2, THEN conjunct2, THEN conjunct2, THEN conjunct1]
  note c5 = t [THEN conjunct2, THEN conjunct2, THEN conjunct2, THEN conjunct2]
  from c1 c4 c5 show ?thesis by (intro conjI)
qed

text \<open>
  C2: take any index \<open>name\<close> of the list of indices (a dictionary, so its keys are
  distinct), the state \<open>st_b\<close> the run has reached when it comes to that index, and the
  candidates \<open>cands\<close> of the index. The run asks for the \<open>i\<close>-th candidate in its request
  number \<open>length (requested st_b) + i\<close>. The index has a record of today, and likewise a
  record of yesterday, at the end of the run exactly when the answer to one of these
  requests yields at least two bars, and then a request with such an answer was made: the
  requests for the index stop with it. If every one of them fails or yields fewer than
  two bars, all candidates have been asked for, both dictionaries are as they were, the
  index is absent from both at the end of the run. In either case the run goes on: it
  is the run over the rest of the list from the state the index left.
\<close>

theorem exhausted_instrument_absent:
  assumes "syms = before @ (name, symbol) # after"
      and "distinct (map fst syms)"
      and "st_b = fetch_loop fromtimestamp net alternatives before initial_state"
      and "cands = symbols_to_try alternatives name symbol"
  shows "(name \<in> set (keys (today_open_data (fetch_loop fromtimestamp net alternatives syms initial_state))) \<longleftrightarrow>
            (\<exists>i<length cands. usable fromtimestamp (net (length (requested st_b) + i) (cands ! i)))) \<and>
         (name \<in> set (keys (yesterday_data (fetch_loop fromtimestamp net alternatives syms initial_state))) \<longleftrightarrow>
            (\<exists>i<length cands. usable fromtimestamp (net (length (requested st_b) + i) (cands ! i)))) \<and>
         ((\<exists>i<length cands. usable fromtimestamp (net (length (requested st_b) + i) (cands ! i))) \<longrightarrow>
            (\<exists>k<length cands.
               usable fromtimestamp (net (length (requested st_b) + k) (cands ! k)) \<and>
               requested (try_symbols fromtimestamp net name cands st_b) =
                 requested st_b @ take (Suc k) cands)) \<and>
         ((\<forall>i<length cands. \<not> usable fromtimestamp (net (length (requested st_b) + i) (cands ! i))) \<longrightarrow>
            name \<notin> set (keys (today_open_data (fetch_loop fromtimestamp net alternatives syms initial_state))) \<and>
            name \<notin> set (keys (yesterday_data (fetch_loop fromtimestamp net alternatives syms initial_state))) \<and>
            requested (try_symbols fromtimestamp net name cands st_b) = requested st_b @ cands \<and>
            today_open_data (try_symbols fromtimestamp net name cands st_b) = today_open_data st_b \<and>
            yesterday_data (try_symbols fromtimestamp net name cands st_b) = yesterday_data st_b) \<and>
         fetch_loop fromtimestamp net alternatives syms initial_state =
           fetch_loop fromtimestamp net alternatives after
             (sleep_ms 500 (try_symbols fromtimestamp net name cands st_b))"
proof -
  note at = fetch_loop_at_index [OF assms]
  note out = try_symbols_outcome [of fromtimestamp net name cands st_b]
  have made: "\<exists>k<length cands.
               usable fromtimestamp (net (length (requested st_b) + k) (cands ! k)) \<and>
               requested (try_symbols fromtimestamp net name cands st_b) =
                 requested st_b @ take (Suc k) cands"
    if "\<exists>i<length cands. usable fromtimestamp (net (length (requested st_b) + i) (cands ! i))"
    using out that by blast
  have none: "requested (try_symbols fromtimestamp net name cands st_b) = requested st_b @ cands \<and>
            today_open_data (try_symbols fromtimestamp net name cands st_b) = today_open_data st_b \<and>
            yesterday_data (try_symbols fromtimestamp net name cands st_b) = yesterday_data st_b"
    if "\<forall>i<length cands. \<not> usable fromtimestamp (net (length (requested st_b) + i) (cands ! i))"
    using out that by blast
  from at made none show ?thesis by blast
qed

text \<open>
  With a provider that knows the bank index only, the mid-cap index, whose four
  candidates all fail, is absent from both dictionaries, and the bank index, which comes
  before it, is in both.
\<close>

theorem exhausted_instrument_absent_witness:
  "''NIFTY MID SELECT'' \<notin> set (keys (today_open_data (run_fetch ist_date bank_only_net))) \<and>
   ''NIFTY MID SELECT'' \<notin> set (keys (yesterday_data (run_fetch ist_date bank_only_net))) \<and>
   ''NIFTY BANK'' \<in> set (keys (today_open_data (run_fetch ist_date bank_only_net))) \<and>
   ''NIFTY BANK'' \<in> set (keys (yesterday_data (run_fetch ist_date bank_only_net)))"
proof -
  let ?b1 = "[(''NIFTY 50'', ''^NSEI''), (''NIFTY BANK'', ''^NSEBANK'')]"
  let ?a1 = "[(''NIFTY FINANCIAL SERVICES'', ''NIFTY_FIN_SERVICE.NS'')]"
  let ?s1 = "fetch_loop ist_date bank_only_net alternative_symbols ?b1 initial_state"
  let ?b2 = "[(''NIFTY 50'', ''^NSEI'')]"
  let ?a2 = "[(''NIFTY MID SELECT'', ''NIFTY_MID_SELECT.NS''),
              (''NIFTY FINANCIAL SERVICES'', ''NIFTY_FIN_SERVICE.NS'')]"
  let ?s2 = "fetch_loop ist_date bank_only_net alternative_symbols ?b2 initial_state"
  have d: "distinct (map fst symbols)" by (simp add: symbols_def)
  have e1: "symbols = ?b1 @ (''NIFTY MID SELECT'', ''NIFTY_MID_SELECT.NS'') # ?a1"
    by (simp add: symbols_def)
  have e2: "symbols = ?b2 @ (''NIFTY BANK'', ''^NSEBANK'') # ?a2"
    by (simp add: symbols_def)
  have c1: "mid_select_candidates =
      symbols_to_try alternative_symbols ''NIFTY MID SELECT'' ''NIFTY_MID_SELECT.NS''"
    by (simp add: symbols_to_try_def alternative_symbols_def mid_select_candidates_def)
  have c2: "[''^NSEBANK''] = symbols_to_try alternative_symbols ''NIFTY BANK'' ''^NSEBANK''"
    by (simp add: symbols_to_try_def alternative_symbols_def)
  note t1 = exhausted_instrument_absent [OF e1 d refl c1]
  note t2 = exhausted_instrument_absent [OF e2 d refl c2]
  have "\<forall>c \<in> set mid_select_candidates. \<not> usable ist_date (bank_only_net n c)" for n
    by (simp add: mid_select_candidates_def bank_only_unusable)
  then have h1: "\<forall>i<length mid_select_candidates.
      \<not> usable ist_date (bank_only_net (length (requested ?s1) + i) (mid_select_candidates ! i))"
    by (metis nth_mem)
  have h2: "\<exists>i<length [''^NSEBANK''].
      usable ist_date (bank_only_net (length (requested ?s2) + i) ([''^NSEBANK''] ! i))"
    by (intro exI [of _ 0]) (simp add: bank_only_usable)
  from t1 h1 have absent:
    "''NIFTY MID SELECT'' \<notin> set (keys (today_open_data (fetch_loop ist_date bank_only_net alternative_symbols symbols initial_state))) \<and>
     ''NIFTY MID SELECT'' \<notin> set (keys (yesterday_data (fetch_loop ist_date bank_only_net alternative_symbols symbols initial_state)))"
    by blast
  from t2 h2 have present:
    "''NIFTY BANK'' \<in> set (keys (today_open_data (fetch_loop ist_date bank_only_net alternative_symbols symbols initial_state))) \<and>
     ''NIFTY BANK'' \<in> set (keys (yesterday_data (fetch_loop ist_date bank_only_net alternative_symbols symbols initial_state)))"
    by blast
  from absent present show ?thesis unfolding run_fetch_def by blast
qed

text \<open>
  C4: when an answer gives a list of bars, that list is the sequence today's and
  yesterday's records are picked from; every bar in it has an open and a close, and its
  bars are, one for one, the positions of the timestamp array with an open and a close
  that are not null: a position with a null open or a null close gives no bar.
\<close>

theorem null_positions_skipped:
  assumes "chart_results d = Some (result # others)"
      and "result_timestamp result = Some ts"
      and "result_quote result = Some (q # qs)"
      and "dates_data_of fromtimestamp d = Some bars"
  shows "valid_bars fromtimestamp (Response 200 (Some d)) = bars \<and>
         (\<forall>b \<in> set bars. bar_open b \<noteq> None \<and> bar_close b \<noteq> None) \<and>
         mset (map (\<lambda>b. (bar_open b, bar_close b)) bars) =
         mset (map (\<lambda>i. (get_list (quote_open q) ! i, get_list (quote_close q) ! i))
                (filter (has_open_close (get_list (quote_open q)) (get_list (quote_close q)))
                   [0 ..< length ts]))"
proof -
  let ?opens = "get_list (quote_open q)"
  let ?closes = "get_list (quote_close q)"
  let ?pair = "\<lambda>b. (bar_open b, bar_close b)"
  let ?valid = "filter (has_open_close ?opens ?closes) [0 ..< length ts]"
  from assms obtain raw where
    raw: "build_dates_data fromtimestamp 0 ts ?opens ?closes
            (get_list (quote_high q)) (get_list (quote_low q)) = Some raw"
    and bars: "bars = sort_by_date_desc raw"
    by (auto simp: dates_data_of_def split: list.splits)
  have v: "valid_bars fromtimestamp (Response 200 (Some d)) = bars"
    using assms(4) by (simp add: valid_bars_def)
  have same: "(\<lambda>j. j < length ?closes \<and> ?closes ! j \<noteq> None \<and> j < length ?opens \<and> ?opens ! j \<noteq> None)
              = has_open_close ?opens ?closes"
    by (rule ext) (simp add: has_open_close_def)
  have pairs: "map ?pair raw = map (\<lambda>i. (?opens ! i, ?closes ! i)) ?valid"
    using build_dates_data_pairs [OF raw] unfolding same by simp
  have "mset (map ?pair bars) = image_mset ?pair (mset bars)" by simp
  also have "\<dots> = image_mset ?pair (mset raw)" by (simp add: bars mset_sort_by_date_desc)
  also have "\<dots> = mset (map ?pair raw)" by simp
  finally have m: "mset (map ?pair bars) = mset (map (\<lambda>i. (?opens ! i, ?closes ! i)) ?valid)"
    by (simp only: pairs)
  have "\<forall>b \<in> set bars. bar_open b \<noteq> None \<and> bar_close b \<noteq> None"
  proof
    fix b assume "b \<in> set bars"
    then have "b \<in> set raw" by (simp add: bars set_sort_by_date_desc)
    then have "?pair b \<in> set (map ?pair raw)" by (rule imageI [of b "set raw" ?pair, folded set_map])
    then obtain i where "i \<in> set ?valid" and "?pair b = (?opens ! i, ?closes ! i)"
      unfolding pairs by auto
    then show "bar_open b \<noteq> None \<and> bar_close b \<noteq> None"
      by (auto simp: has_open_close_def)
  qed
  with v m show ?thesis by blast
qed

text \<open>Three sessions, the second without an open: two bars, the third and the first.\<close>

theorem null_positions_skipped_witness:
  "valid_bars ist_date (Response 200 (Some null_middle_bars)) =
     [\<lparr>bar_date = ''2024-01-03'', bar_open = Some 21661.1, bar_close = Some 21517.35,
       bar_high = Some 21677, bar_low = Some 21500.35\<rparr>,
      \<lparr>bar_date = ''2024-01-01'', bar_open = Some 21727.75, bar_close = Some 21741.9,
       bar_high = Some 21834.35, bar_low = Some 21680.85\<rparr>]"
proof -
  let ?q = "\<lparr>quote_high = Some [Some 21834.35, Some 21755.6, Some 21677],
             quote_low = Some [Some 21680.85, Some 21555.65, Some 21500.35],
             quote_open = Some [Some 21727.75, None, Some 21661.1],
             quote_close = Some [Some 21741.9, Some 21665.8, Some 21517.35]\<rparr>"
  let ?ts = "[1704079800, 1704166200, 1704252600] :: int list"
  let ?result = "\<lparr>result_timestamp = Some ?ts, result_quote = Some [?q]\<rparr>"
  have h1: "chart_results null_middle_bars = Some (?result # [])"
    by (simp add: null_middle_bars_def quote_response_def)
  have h2: "result_timestamp ?result = Some ?ts" by simp
  have h3: "result_quote ?result = Some (?q # [])" by simp
  from null_positions_skipped [OF h1 h2 h3 null_middle_sorted, THEN conjunct1]
  show ?thesis .
qed

text \<open>
  C5 fails on the code for a price of zero. An answer for \<open>^NSEI\<close> whose most recent bar
  has the open 0.0: the bar is kept, since its open is not null, and the record of today
  holds \<open>'N/A'\<close> in place of the rounded open.
\<close>

theorem zero_open_reported_na:
  "valid_bars ist_date (zero_open_net 0 ''^NSEI'') ! 0 =
     \<lparr>bar_date = ''2024-01-03'', bar_open = Some 0, bar_close = Some 21517.35,
      bar_high = Some 21677, bar_low = Some 21500.35\<rparr> \<and>
   fst (get_simplified_stock_data ist_date zero_open_net) =
     [(''NIFTY 50'',
       [(''date'', PStr ''2024-01-03''), (''open'', PStr ''N/A''), (''symbol_used'', PStr ''^NSEI'')])]"
  by (simp add: get_simplified_stock_data_def run_fetch_def symbols_def alternative_symbols_def
        symbols_to_try_def initial_state_def zero_open_net_def zero_open_sorted valid_bars_def
        sleep_ms_def today_record_def yesterday_record_def rounded_or_na_def Let_def)

text \<open>
  C10: the two dictionaries the fetch returns have the same keys, in the same order, for
  the program's indices and for any other list of indices; and the attempts for one
  index either leave the keys of both dictionaries as they are or store, under the
  index, a record of today and a record of yesterday made from the first and second bar
  of one answer to one candidate.
\<close>

theorem fetch_key_sets_equal:
  "keys (fst (get_simplified_stock_data fromtimestamp net)) =
     keys (snd (get_simplified_stock_data fromtimestamp net)) \<and>
   keys (today_open_data (fetch_loop fromtimestamp net alternatives syms initial_state)) =
     keys (yesterday_data (fetch_loop fromtimestamp net alternatives syms initial_state)) \<and>
   (keys (today_open_data (try_symbols fromtimestamp net index_name cands st)) =
      keys (today_open_data st) \<and>
    keys (yesterday_data (try_symbols fromtimestamp net index_name cands st)) =
      keys (yesterday_data st) \<or>
    (\<exists>k. k < length cands \<and>
       today_open_data (try_symbols fromtimestamp net index_name cands st) =
         dict_set (today_open_data st) index_name
           (today_record
              (valid_bars fromtimestamp (net (length (requested st) + k) (cands ! k)) ! 0)
              (cands ! k)) \<and>
       yesterday_data (try_symbols fromtimestamp net index_name cands st) =
         dict_set (yesterday_data st) index_name
           (yesterday_record
              (valid_bars fromtimestamp (net (length (requested st) + k) (cands ! k)) ! 1)
              (cands ! k))))"
proof -
  have i: "keys (today_open_data initial_state) = keys (yesterday_data initial_state)"
    by (simp add: initial_state_def)
  have a: "keys (fst (get_simplified_stock_data fromtimestamp net)) =
           keys (snd (get_simplified_stock_data fromtimestamp net))"
    unfolding get_simplified_stock_data_def run_fetch_def Let_def fst_conv snd_conv
    by (rule fetch_loop_keys_eq [OF i])
  have b: "keys (today_open_data (fetch_loop fromtimestamp net alternatives syms initial_state)) =
     keys (yesterday_data (fetch_loop fromtimestamp net alternatives syms initial_state))"
    by (rule fetch_loop_keys_eq [OF i])
  from try_symbols_outcome [of fromtimestamp net index_name cands st] a b
  show ?thesis by auto
qed

text \<open>With the provider of the first example both dictionaries hold the mid-cap index only.\<close>

theorem fetch_key_sets_equal_witness:
  "keys (snd (get_simplified_stock_data ist_date fallback_net)) = [''NIFTY MID SELECT'']"
proof -
  have e: "keys (fst (get_simplified_stock_data ist_date fallback_net)) = [''NIFTY MID SELECT'']"
    by (simp add: get_simplified_stock_data_def run_fetch_def symbols_def alternative_symbols_def
        symbols_to_try_def initial_state_def fallback_net_def three_bars_sorted
        sleep_ms_def today_record_def yesterday_record_def keys_def Let_def)
  from fetch_key_sets_equal [where fromtimestamp = ist_date and net = fallback_net, THEN conjunct1] e
  show ?thesis by simp
qed

section \<open>Claims about the report\<close>

text \<open>
  C6, as the code has it: the text of the report depends on the two dictionaries, the
  clock reading and the order in which the interpreter iterates a set of names, and on
  nothing else. The order matters only where a line lists two or more missing indices:
  when at most one of the four expected indices is missing from each dictionary, any
  two orders give the same text.
\<close>

theorem report_independent_of_set_order:
  assumes "card (set all_expected_indices - set (keys today_map)) \<le> 1"
      and "card (set all_expected_indices - set (keys yesterday_map)) \<le> 1"
  shows "format_simplified_message str_float slot1 current_time today_map yesterday_map =
         format_simplified_message str_float slot2 current_time today_map yesterday_map"
proof -
  have t: "missing_today slot1 today_map = missing_today slot2 today_map"
    unfolding missing_today_def using assms(1) by (rule set_difference_slot_irrelevant)
  have y: "missing_yesterday slot1 yesterday_map = missing_yesterday slot2 yesterday_map"
    unfolding missing_yesterday_def using assms(2) by (rule set_difference_slot_irrelevant)
  show ?thesis
    unfolding format_simplified_message_def data_status_def t y ..
qed

text \<open>Three of the four indices in both dictionaries, under two opposite orders.\<close>

theorem report_independent_of_set_order_witness:
  "format_simplified_message str_float_2dp slot_short_first sample_time three_present three_present =
   format_simplified_message str_float_2dp slot_long_first sample_time three_present three_present"
  by (rule report_independent_of_set_order [OF three_present_one_missing three_present_one_missing])

text \<open>
  C6 as stated makes the text a function of the dictionaries and the clock reading
  alone. With one index present, three names are listed as missing, and two iteration
  orders of that set give two different texts for the same dictionaries and the same
  clock reading.
\<close>

theorem report_depends_on_set_order:
  "format_simplified_message str_float_2dp slot_short_first sample_time sample_today sample_yesterday \<noteq>
   format_simplified_message str_float_2dp slot_long_first sample_time sample_today sample_yesterday"
proof -
  have ne: "\<not> (sample_today = [] \<and> sample_yesterday = [])" by (simp add: sample_today_def)
  show ?thesis
    unfolding format_report [OF ne] same_append_eq append_same_eq data_status_def
      sample_missing_short_first sample_missing_long_first
    by simp
qed

text \<open>
  C8, as the code has it: for two dictionaries that are not both empty the text is a
  report: the head, the section of today, the section of yesterday, the data status
  section and the foot. The data status section is empty exactly when all four expected
  indices are keys of both dictionaries; otherwise it is its heading, then a line of the
  indices missing today if there is one, then a line of the indices missing yesterday if
  there is one. Each line names, once each, exactly the expected indices that are not
  keys of its dictionary.
\<close>

theorem data_status_section:
  assumes "\<not> (today_map = [] \<and> yesterday_map = [])"
  shows "format_simplified_message str_float slot current_time today_map yesterday_map =
           report_head current_time @
           today_section str_float today_map @
           yesterday_section str_float yesterday_map @
           (if set all_expected_indices \<subseteq> set (keys today_map) \<and>
               set all_expected_indices \<subseteq> set (keys yesterday_map) then []
            else nl @ glyph_warning @ '' *Data Status*'' @ nl @
                 (if set all_expected_indices \<subseteq> set (keys today_map) then []
                  else ''Missing today's data: '' @ join '', '' (missing_today slot today_map) @ nl) @
                 (if set all_expected_indices \<subseteq> set (keys yesterday_map) then []
                  else ''Missing yesterday's data: '' @
                       join '', '' (missing_yesterday slot yesterday_map) @ nl)) @
           report_foot \<and>
         set (missing_today slot today_map) = set all_expected_indices - set (keys today_map) \<and>
         distinct (missing_today slot today_map) \<and>
         set (missing_yesterday slot yesterday_map) = set all_expected_indices - set (keys yesterday_map) \<and>
         distinct (missing_yesterday slot yesterday_map) \<and>
         set all_expected_indices =
           {''NIFTY 50'', ''NIFTY BANK'', ''NIFTY MID SELECT'', ''NIFTY FINANCIAL SERVICES''}"
proof -
  have m: "format_simplified_message str_float slot current_time today_map yesterday_map =
           report_head current_time @
           today_section str_float today_map @
           yesterday_section str_float yesterday_map @
           data_status slot today_map yesterday_map @ report_foot"
    using assms by (rule format_report)
  have s: "set (missing_today slot today_map) = set all_expected_indices - set (keys today_map)"
          "distinct (missing_today slot today_map)"
          "set (missing_yesterday slot yesterday_map) = set all_expected_indices - set (keys yesterday_map)"
          "distinct (missing_yesterday slot yesterday_map)"
    by (simp_all only: missing_today_def missing_yesterday_def set_set_difference distinct_set_difference)
  from m s all_expected_indices_set show ?thesis
    unfolding data_status_cases [symmetric] by (intro conjI)
qed

text \<open>With the fourth index missing from both dictionaries, both lines name it.\<close>

theorem data_status_section_witness:
  "format_simplified_message str_float_2dp slot_short_first sample_time three_present three_present =
     report_head sample_time @
     today_section str_float_2dp three_present @
     yesterday_section str_float_2dp three_present @
     (nl @ glyph_warning @ '' *Data Status*'' @ nl @
      (''Missing today's data: '' @ ''NIFTY FINANCIAL SERVICES'' @ nl) @
      (''Missing yesterday's data: '' @ ''NIFTY FINANCIAL SERVICES'' @ nl)) @
     report_foot"
proof -
  have h: "\<not> (three_present = [] \<and> three_present = [])" by (simp add: three_present_def)
  from data_status_section [OF h, of str_float_2dp slot_short_first sample_time, THEN conjunct1]
  show ?thesis
    by (simp only: three_present_not_all three_present_missing join.simps if_False simp_thms)
qed

text \<open>
  C8 as stated speaks of every pair of dictionaries. For two empty dictionaries all four
  expected indices are missing from both, so the data status section would have its
  heading and both lines; but the text is the fixed message that no data could be
  fetched, and holds no such section.
\<close>

theorem no_report_counterexample:
  "set all_expected_indices - set (keys ([] :: record_map)) =
     {''NIFTY 50'', ''NIFTY BANK'', ''NIFTY MID SELECT'', ''NIFTY FINANCIAL SERVICES''} \<and>
   data_status slot_short_first [] [] =
     nl @ glyph_warning @ '' *Data Status*'' @ nl @
     ''Missing today's data: '' @ join '', '' (missing_today slot_short_first []) @ nl @
     ''Missing yesterday's data: '' @ join '', '' (missing_yesterday slot_short_first []) @ nl \<and>
   format_simplified_message str_float_2dp slot_short_first sample_time [] [] =
     glyph_cross @ '' Unable to fetch stock data at this time.''"
proof -
  have m: "missing_today slot_short_first [] \<noteq> []" "missing_yesterday slot_short_first [] \<noteq> []"
    by (simp_all add: missing_today_empty_iff missing_yesterday_empty_iff all_expected_indices_def keys_def)
  show ?thesis
    by (simp add: format_simplified_message_def data_status_def m all_expected_indices_def keys_def)
qed

text \<open>
  C9, as the code has it: the header of each section shows, between its parentheses, the
  \<open>date\<close> of the first record of its dictionary, or the label \<open>Today\<close> or \<open>Yesterday\<close>
  when that record has no \<open>date\<close>; for an empty dictionary it shows nothing.
\<close>

theorem header_dates:
  assumes "\<not> (today_map = [] \<and> yesterday_map = [])"
  shows "format_simplified_message str_float slot current_time today_map yesterday_map =
           report_head current_time @
           glyph_sunrise @ '' *Today's Opening ('' @ header_date str_float today_map ''Today'' @ '')*'' @ nl @
           rule_line @ nl @ concat (map (today_block str_float) today_map) @
           nl @ glyph_chart @ '' *Yesterday's OHLC ('' @
             header_date str_float yesterday_map ''Yesterday'' @ '')*'' @ nl @
           rule_line @ nl @ concat (map (yesterday_block str_float) yesterday_map) @
           data_status slot today_map yesterday_map @ report_foot \<and>
         header_date str_float [] label = [] \<and>
         (\<forall>index_name values rest v.
            map_of values ''date'' = Some v \<longrightarrow>
            header_date str_float ((index_name, values) # rest) label = fstr str_float v) \<and>
         (\<forall>index_name values rest.
            map_of values ''date'' = None \<longrightarrow>
            header_date str_float ((index_name, values) # rest) label = label)"
proof -
  have m: "format_simplified_message str_float slot current_time today_map yesterday_map =
           report_head current_time @
           today_section str_float today_map @
           yesterday_section str_float yesterday_map @
           data_status slot today_map yesterday_map @ report_foot"
    using assms by (rule format_report)
  have h: "header_date str_float [] label = []"
    by (simp add: header_date_def)
  have d: "header_date str_float ((index_name, vals) # rest) label = fstr str_float v"
    if "map_of vals ''date'' = Some v" for index_name vals rest v
    using that by (simp add: header_date_def dict_get_def)
  have n: "header_date str_float ((index_name, vals) # rest) label = label"
    if "map_of vals ''date'' = None" for index_name vals rest
    using that by (simp add: header_date_def dict_get_def fstr_def)
  from m h d n show ?thesis
    unfolding today_section_def yesterday_section_def by simp
qed

text \<open>
  One record on each side: the headers show the dates of the two records; a record
  without a date shows the label.
\<close>

theorem header_dates_witness:
  "format_simplified_message str_float_2dp slot_short_first sample_time sample_today sample_yesterday =
     report_head sample_time @
     glyph_sunrise @ '' *Today's Opening ('' @ ''2024-01-03'' @ '')*'' @ nl @
     rule_line @ nl @ concat (map (today_block str_float_2dp) sample_today) @
     nl @ glyph_chart @ '' *Yesterday's OHLC ('' @ ''2024-01-02'' @ '')*'' @ nl @
     rule_line @ nl @ concat (map (yesterday_block str_float_2dp) sample_yesterday) @
     data_status slot_short_first sample_today sample_yesterday @ report_foot \<and>
   header_date str_float_2dp [(''NIFTY BANK'', [])] ''Yesterday'' = ''Yesterday''"
proof -
  have h: "\<not> (sample_today = [] \<and> sample_yesterday = [])" by (simp add: sample_today_def)
  note t = header_dates [OF h, of str_float_2dp slot_short_first sample_time "''Yesterday''"]
  have a: "header_date str_float_2dp sample_today ''Today'' = ''2024-01-03''"
    by (simp add: header_date_def sample_today_def dict_get_def fstr_def)
  have b: "header_date str_float_2dp sample_yesterday ''Yesterday'' = ''2024-01-02''"
    by (simp add: header_date_def sample_yesterday_def dict_get_def fstr_def)
  have c: "map_of ([] :: pydict) ''date'' = None" by simp
  note first = t [THEN conjunct1, unfolded a b]
  have last: "header_date str_float_2dp [(''NIFTY BANK'', [])] ''Yesterday'' = ''Yesterday''"
    using t [THEN conjunct2, THEN conjunct2, THEN conjunct2] c by blast
  from first last show ?thesis by (rule conjI)
qed

text \<open>
  C9 as stated puts a generic label in the header of an empty record set. With no record
  of today and one of yesterday, the header of today's section has empty parentheses.
\<close>

theorem empty_today_header_counterexample:
  "format_simplified_message str_float_2dp slot_short_first sample_time [] sample_yesterday =
     report_head sample_time @
     glyph_sunrise @ '' *Today's Opening ()*'' @ nl @ rule_line @ nl @
     nl @ glyph_chart @ '' *Yesterday's OHLC (2024-01-02)*'' @ nl @ rule_line @ nl @
     concat (map (yesterday_block str_float_2dp) sample_yesterday) @
     data_status slot_short_first [] sample_yesterday @ report_foot"
  by (simp add: format_simplified_message_def today_section_def yesterday_section_def
        header_date_def dict_get_def fstr_def sample_yesterday_def)

section \<open>Claims about the notifier\<close>

text \<open>
  C3, as the code has it: for every message and every sequence of outcomes,
  \<open>send_telegram_message\<close> returns a boolean after at most 3 attempts; it returns success
  exactly when one of the first 3 attempts is answered with status 200, and then that
  attempt is the first such one and the last one made; it returns failure only after all
  3 attempts have failed. An attempt succeeds on status 200 only: every other status,
  every raised exception, is a failed attempt and none escapes.
\<close>

theorem send_bounded:
  "attempts (send_telegram_message post message) \<le> 3 \<and>
   (sent (send_telegram_message post message) \<longleftrightarrow> (\<exists>k<3. post k message = Status 200)) \<and>
   (sent (send_telegram_message post message) \<longrightarrow>
      0 < attempts (send_telegram_message post message) \<and>
      post (attempts (send_telegram_message post message) - 1) message = Status 200 \<and>
      (\<forall>k < attempts (send_telegram_message post message) - 1. post k message \<noteq> Status 200)) \<and>
   (\<not> sent (send_telegram_message post message) \<longrightarrow>
      attempts (send_telegram_message post message) = 3)"
proof -
  let ?r = "send_loop post message 3 0 []"
  have a: "attempts ?r \<le> 3" using send_loop_attempts_bounds [of 0 post message 3 "[]"] by simp
  have b: "sent ?r \<longleftrightarrow> (\<exists>k<3. post k message = Status 200)"
    by (simp add: send_loop_sent_iff)
  have c: "sent ?r \<longrightarrow> 0 < attempts ?r \<and> post (attempts ?r - 1) message = Status 200 \<and>
      (\<forall>k < attempts ?r - 1. post k message \<noteq> Status 200)"
    using send_loop_first_success [of post message 3 0 "[]"] by simp
  have d: "\<not> sent ?r \<longrightarrow> attempts ?r = 3"
    using send_loop_failed_attempts [of post message 3 0 "[]"] by simp
  from a b c d show ?thesis unfolding send_telegram_message_def by blast
qed

text \<open>
  Two sends: status 500 twice and then 200 gives success at the third attempt; a timeout
  at every attempt gives failure after three.
\<close>

theorem send_bounded_witness:
  "sent (send_telegram_message two_500_then_200 ''report'') \<and>
   attempts (send_telegram_message two_500_then_200 ''report'') = 3 \<and>
   two_500_then_200 2 ''report'' = Status 200 \<and>
   \<not> sent (send_telegram_message always_timeout ''report'') \<and>
   attempts (send_telegram_message always_timeout ''report'') = 3"
  using send_bounded [of two_500_then_200 "''report''"] send_bounded [of always_timeout "''report''"]
  by (simp add: send_telegram_message_def send_loop.simps two_500_then_200_def always_timeout_def)

text \<open>
  C3 as stated counts every 2xx status as a success. An endpoint that answers 204 to each
  attempt is posted to three times, with two waits of 2 s, and the send fails.
\<close>

theorem send_204_counterexample:
  "always_204 0 ''report'' = Status 204 \<and>
   \<not> sent (send_telegram_message always_204 ''report'') \<and>
   attempts (send_telegram_message always_204 ''report'') = 3 \<and>
   sleeps (send_telegram_message always_204 ''report'') = [2, 2]"
  by (simp add: send_telegram_message_def send_loop.simps always_204_def)

text \<open>
  C7: when every attempt of a send fails, the send waits twice, after the first and after
  the second attempt and not after the third; each wait is the one of the failure's
  class: 2 s after an HTTP failure, twice the attempt's number after a connection error
  or a timeout, 3 s after any other exception.
\<close>

theorem send_backoff:
  assumes "\<forall>k<3. post k message \<noteq> Status 200"
  shows "\<not> sent (send_telegram_message post message) \<and>
         attempts (send_telegram_message post message) = 3 \<and>
         sleeps (send_telegram_message post message) =
           [backoff (post 0 message) 1, backoff (post 1 message) 2]"
proof -
  let ?r = "send_loop post message 3 0 []"
  have ns: "\<not> sent ?r" using assms by (simp add: send_loop_sent_iff)
  have at: "attempts ?r = 3" using send_loop_failed_attempts [OF ns] by simp
  then have "sleeps ?r = map (\<lambda>k. backoff (post k message) (k + 1)) [0 ..< 2]"
    using send_loop_sleeps [of post message 3 0 "[]"] by simp
  also have "[0 ..< 2] = [0, Suc 0]" by (simp add: upt_rec)
  finally show ?thesis using ns at unfolding send_telegram_message_def
    by (simp add: numeral_2_eq_2)
qed

text \<open>A send that times out three times waits 2 s and then 4 s.\<close>

theorem send_backoff_witness:
  "always_timeout 0 ''report'' = Timeout \<and>
   \<not> sent (send_telegram_message always_timeout ''report'') \<and>
   sleeps (send_telegram_message always_timeout ''report'') = [2, 4]"
proof -
  have h: "\<forall>k<3. always_timeout k ''report'' \<noteq> Status 200" by (simp add: always_timeout_def)
  from send_backoff [of always_timeout "''report''"] h show ?thesis
    by (simp add: always_timeout_def)
qed

end
